theory Spec2Isabelle
  imports
    Complex_Main
    "HOL-Library.Char_ord"
    "HOL-Library.List_Lexorder"
    "HOL-Library.Product_Lexorder"
begin

section \<open>Values shared by every loader\<close>

subsection \<open>Dates and times\<close>

text \<open>
  Python's naive \<^verbatim>\<open>datetime\<close> is its seven fields; two values are compared field by
  field from the year down to the microsecond. \<^verbatim>\<open>datetime.min\<close> is
  0001-01-01 00:00:00.000000.
\<close>

record datetime =
  year :: nat
  month :: nat
  day :: nat
  hour :: nat
  minute :: nat
  second :: nat
  microsecond :: nat

type_synonym datetime_key = "nat \<times> nat \<times> nat \<times> nat \<times> nat \<times> nat \<times> nat"

definition datetime_key :: "datetime \<Rightarrow> datetime_key" where
  "datetime_key d = (year d, month d, day d, hour d, minute d, second d, microsecond d)"

definition datetime_min :: datetime where
  "datetime_min = \<lparr>year = 1, month = 1, day = 1, hour = 0, minute = 0, second = 0, microsecond = 0\<rparr>"

text \<open>\<^verbatim>\<open>str(ObjectId('0' * 24))\<close>: twenty-four characters \<^verbatim>\<open>0\<close>.\<close>

definition zero_oid :: string where
  "zero_oid = replicate 24 (CHR ''0'')"

subsection \<open>Truthiness\<close>

text \<open>
  \<^verbatim>\<open>bool(x)\<close> for an \<^verbatim>\<open>Optional[int]\<close> and an \<^verbatim>\<open>Optional[str]\<close>: \<^verbatim>\<open>None\<close>,
  the integer 0 and the empty string are falsy.
\<close>

fun truthy_int :: "int option \<Rightarrow> bool" where
  "truthy_int None = False"
| "truthy_int (Some n) = (n \<noteq> 0)"

fun truthy_str :: "string option \<Rightarrow> bool" where
  "truthy_str None = False"
| "truthy_str (Some s) = (s \<noteq> [])"

text \<open>\<^verbatim>\<open>all(xs)\<close> over a list of truth values.\<close>

definition py_all :: "bool list \<Rightarrow> bool" where
  "py_all bs = list_all (\<lambda>b. b) bs"

subsection \<open>The built-in max\<close>

text \<open>
  \<^verbatim>\<open>max(xs)\<close> keeps the first element and replaces it by a later one whenever the
  later one is greater; with only \<^verbatim>\<open>__lt__\<close> defined, \<^verbatim>\<open>item > best\<close> is answered
  by \<^verbatim>\<open>best.__lt__(item)\<close>. On an empty list it raises (here \<open>None\<close>).
\<close>

fun py_max :: "('a \<Rightarrow> 'a \<Rightarrow> bool) \<Rightarrow> 'a list \<Rightarrow> 'a option" where
  "py_max lt [] = None"
| "py_max lt (x # xs) = Some (foldl (\<lambda>best item. if lt best item then item else best) x xs)"

section \<open>The join-and-gap filter\<close>

text \<open>
  Both DDS loaders end their read with the same loop:
  \<^verbatim>\<open>
  for idx, order in enumerate(orders):
      if not all([order.user_fk, order.restaurant_fk, order.timestamp_fk]):
          orders = orders[:idx]
          break
  return orders
  \<close>
  \<open>truncate_at_gap ok orders idx rest\<close> is the loop with \<open>rest\<close> still to visit and
  \<open>idx\<close> the index of its head; \<open>ok\<close> is the test \<^verbatim>\<open>all([...])\<close> of the loader.
\<close>

fun truncate_at_gap :: "('a \<Rightarrow> bool) \<Rightarrow> 'a list \<Rightarrow> nat \<Rightarrow> 'a list \<Rightarrow> 'a list" where
  "truncate_at_gap ok orders idx [] = orders"
| "truncate_at_gap ok orders idx (x # rest) =
     (if \<not> ok x then take idx orders else truncate_at_gap ok orders (Suc idx) rest)"

subsection \<open>Orders (dm\_orders\_loader.py)\<close>

record OrderObj =
  object_id :: string
  update_ts :: datetime
  final_status :: string
  user_fk :: "int option"
  restaurant_fk :: "int option"
  timestamp_fk :: "int option"

text \<open>\<^verbatim>\<open>OrderObj.__lt__\<close>: the tuples \<^verbatim>\<open>(update_ts, object_id)\<close> compared.\<close>

definition OrderObj_key :: "OrderObj \<Rightarrow> datetime_key \<times> string" where
  "OrderObj_key order = (datetime_key (update_ts order), object_id order)"

definition OrderObj_lt :: "OrderObj \<Rightarrow> OrderObj \<Rightarrow> bool" where
  "OrderObj_lt self other \<longleftrightarrow> OrderObj_key self < OrderObj_key other"

definition order_fks_ok :: "OrderObj \<Rightarrow> bool" where
  "order_fks_ok order =
     py_all [truthy_int (user_fk order), truthy_int (restaurant_fk order),
             truthy_int (timestamp_fk order)]"

definition orders_gap_filter :: "OrderObj list \<Rightarrow> OrderObj list" where
  "orders_gap_filter orders = truncate_at_gap order_fks_ok orders 0 orders"


subsection \<open>Product sales (fct\_product\_sales\_loader.py)\<close>

text \<open>
  The amounts are Python floats that the filter and the ordering never look at;
  their type is left open as \<open>'f\<close>.
\<close>

record 'f ProductSaleObj =
  product_id :: string
  price :: 'f
  quantity :: int
  bonus_payment :: 'f
  bonus_grant :: 'f
  event_ts :: datetime
  order_fk :: "string option"
  product_fk :: "string option"

definition ProductSaleObj_key :: "'f ProductSaleObj \<Rightarrow> datetime_key \<times> string" where
  "ProductSaleObj_key sale = (datetime_key (event_ts sale), product_id sale)"

definition ProductSaleObj_lt :: "'f ProductSaleObj \<Rightarrow> 'f ProductSaleObj \<Rightarrow> bool" where
  "ProductSaleObj_lt self other \<longleftrightarrow> ProductSaleObj_key self < ProductSaleObj_key other"

definition sale_fks_ok :: "'f ProductSaleObj \<Rightarrow> bool" where
  "sale_fks_ok sale = py_all [truthy_str (order_fk sale), truthy_str (product_fk sale)]"

definition sales_gap_filter :: "'f ProductSaleObj list \<Rightarrow> 'f ProductSaleObj list" where
  "sales_gap_filter product_sales = truncate_at_gap sale_fks_ok product_sales 0 product_sales"

definition sale_ref_absent :: "'f ProductSaleObj \<Rightarrow> bool" where
  "sale_ref_absent sale \<longleftrightarrow> order_fk sale = None \<or> product_fk sale = None"

text \<open>The reading the loader's test gives to "no reference": absent or falsy.\<close>

definition order_ref_falsy :: "OrderObj \<Rightarrow> bool" where
  "order_ref_falsy order \<longleftrightarrow>
     user_fk order = None \<or> user_fk order = Some 0
     \<or> restaurant_fk order = None \<or> restaurant_fk order = Some 0
     \<or> timestamp_fk order = None \<or> timestamp_fk order = Some 0"

definition sale_ref_falsy :: "'f ProductSaleObj \<Rightarrow> bool" where
  "sale_ref_falsy sale \<longleftrightarrow>
     order_fk sale = None \<or> order_fk sale = Some [] \<or> product_fk sale = None \<or> product_fk sale = Some []"

section \<open>Serialising a watermark (lib/utils.py)\<close>

subsection \<open>Dates\<close>

record date =
  date_year :: nat
  date_month :: nat
  date_day :: nat

definition date_key :: "date \<Rightarrow> nat \<times> nat \<times> nat" where
  "date_key d = (date_year d, date_month d, date_day d)"

definition date_min :: date where
  "date_min = \<lparr>date_year = 1, date_month = 1, date_day = 1\<rparr>"

definition is_leap :: "nat \<Rightarrow> bool" where
  "is_leap y \<longleftrightarrow> y mod 4 = 0 \<and> (y mod 100 \<noteq> 0 \<or> y mod 400 = 0)"

definition days_in_month :: "nat \<Rightarrow> nat \<Rightarrow> nat" where
  "days_in_month y m =
     (if m = 2 then (if is_leap y then 29 else 28)
      else if m = 4 \<or> m = 6 \<or> m = 9 \<or> m = 11 then 30 else 31)"

text \<open>The values the constructors \<^verbatim>\<open>date(...)\<close> and \<^verbatim>\<open>datetime(...)\<close> accept.\<close>

definition valid_ymd :: "nat \<Rightarrow> nat \<Rightarrow> nat \<Rightarrow> bool" where
  "valid_ymd y m d \<longleftrightarrow> 1 \<le> y \<and> y \<le> 9999 \<and> 1 \<le> m \<and> m \<le> 12 \<and> 1 \<le> d \<and> d \<le> days_in_month y m"

definition valid_date :: "date \<Rightarrow> bool" where
  "valid_date d \<longleftrightarrow> valid_ymd (date_year d) (date_month d) (date_day d)"


subsection \<open>strftime\<close>

text \<open>
  Decimal digits. \<open>pad2\<close> and \<open>pad4\<close> are the zero-padded fields of \<^verbatim>\<open>%m %d %H %M %S\<close>
  and \<^verbatim>\<open>%Y\<close>. (For a year below 1000 the C library decides whether \<^verbatim>\<open>%Y\<close> is padded;
  every statement below about formatted years is for the years from 1000 on.)
\<close>

definition digit_char :: "nat \<Rightarrow> char" where
  "digit_char n = ''0123456789'' ! n"

definition is_digit :: "char \<Rightarrow> bool" where
  "is_digit c \<longleftrightarrow> 48 \<le> (of_char c :: nat) \<and> (of_char c :: nat) \<le> 57"

definition digit_val :: "char \<Rightarrow> nat" where
  "digit_val c = of_char c - 48"

definition pad2 :: "nat \<Rightarrow> string" where
  "pad2 n = [digit_char (n div 10 mod 10), digit_char (n mod 10)]"

definition pad4 :: "nat \<Rightarrow> string" where
  "pad4 n = pad2 (n div 100 mod 100) @ pad2 (n mod 100)"

text \<open>\<^verbatim>\<open>obj.strftime("%Y-%m-%d %H:%M:%S")\<close>, the \<^verbatim>\<open>datetime\<close> branch of \<^verbatim>\<open>to_dict\<close>.\<close>

definition strftime_datetime :: "datetime \<Rightarrow> string" where
  "strftime_datetime d =
     pad4 (year d) @ ''-'' @ pad2 (month d) @ ''-'' @ pad2 (day d) @ '' '' @
     pad2 (hour d) @ '':'' @ pad2 (minute d) @ '':'' @ pad2 (second d)"

text \<open>\<^verbatim>\<open>obj.strftime("%Y-%m-%d")\<close>, the \<^verbatim>\<open>date\<close> branch of \<^verbatim>\<open>to_dict\<close>.\<close>

definition strftime_date :: "date \<Rightarrow> string" where
  "strftime_date d = pad4 (date_year d) @ ''-'' @ pad2 (date_month d) @ ''-'' @ pad2 (date_day d)"

subsection \<open>Reading a date or a time back\<close>

text \<open>
  The settings models are pydantic models; a string given for a \<^verbatim>\<open>date\<close> or
  \<^verbatim>\<open>datetime\<close> field is read by pydantic's parser. The parser is modelled on the
  fixed-width forms \<^verbatim>\<open>YYYY-MM-DD\<close> and \<^verbatim>\<open>YYYY-MM-DD[ T]HH:MM:SS[.ffffff]\<close>, which
  include everything \<open>strftime_date\<close> and \<open>strftime_datetime\<close> write; any other string
  is refused here.
\<close>

definition digits_value :: "string \<Rightarrow> nat" where
  "digits_value cs = foldl (\<lambda>a c. 10 * a + digit_val c) 0 cs"

definition read_digits :: "string \<Rightarrow> nat option" where
  "read_digits cs = (if cs \<noteq> [] \<and> list_all is_digit cs then Some (digits_value cs) else None)"

definition digits_at :: "string \<Rightarrow> nat \<Rightarrow> nat \<Rightarrow> nat option" where
  "digits_at s off n = (if off + n \<le> length s then read_digits (take n (drop off s)) else None)"

definition parse_date :: "string \<Rightarrow> date option" where
  "parse_date s =
     (if length s = 10 \<and> s ! 4 = CHR ''-'' \<and> s ! 7 = CHR ''-'' then
        (case (digits_at s 0 4, digits_at s 5 2, digits_at s 8 2) of
           (Some y, Some m, Some d) \<Rightarrow>
             if valid_ymd y m d then Some \<lparr>date_year = y, date_month = m, date_day = d\<rparr> else None
         | _ \<Rightarrow> None)
      else None)"

text \<open>The fraction of a second: one to six digits, read as microseconds.\<close>

definition parse_fraction :: "string \<Rightarrow> nat option" where
  "parse_fraction rest =
     (case rest of
        [] \<Rightarrow> Some 0
      | c # ds \<Rightarrow>
          if c = CHR ''.'' \<and> length ds \<le> 6 then
            (case read_digits ds of Some v \<Rightarrow> Some (v * 10 ^ (6 - length ds)) | None \<Rightarrow> None)
          else None)"

definition parse_datetime :: "string \<Rightarrow> datetime option" where
  "parse_datetime s =
     (if 19 \<le> length s \<and> s ! 4 = CHR ''-'' \<and> s ! 7 = CHR ''-''
         \<and> (s ! 10 = CHR '' '' \<or> s ! 10 = CHR ''T'') \<and> s ! 13 = CHR '':'' \<and> s ! 16 = CHR '':'' then
        (case (digits_at s 0 4, digits_at s 5 2, digits_at s 8 2) of
           (Some y, Some m, Some d) \<Rightarrow>
             (case (digits_at s 11 2, digits_at s 14 2, digits_at s 17 2, parse_fraction (drop 19 s)) of
                (Some h, Some mi, Some sec, Some us) \<Rightarrow>
                  if valid_ymd y m d \<and> h < 24 \<and> mi < 60 \<and> sec < 60
                  then Some \<lparr>year = y, month = m, day = d, hour = h, minute = mi, second = sec,
                             microsecond = us\<rparr>
                  else None
              | _ \<Rightarrow> None)
         | _ \<Rightarrow> None)
      else None)"

subsection \<open>Dictionaries and the generic serializer\<close>

text \<open>
  The values that occur in a record's \<^verbatim>\<open>dict()\<close> and in a settings blob; a dictionary
  is its items in order.
\<close>

datatype py_value = PyStr string | PyInt int | PyDatetime datetime | PyDate date

type_synonym py_dict = "(string \<times> py_value) list"

text \<open>
  \<^verbatim>\<open>to_dict\<close> on a value: a \<^verbatim>\<open>datetime\<close> and a \<^verbatim>\<open>date\<close> become strings, a string and
  an integer fall through to the last branch and are returned as they are.
\<close>

fun to_dict_value :: "py_value \<Rightarrow> py_value" where
  "to_dict_value (PyDatetime obj) = PyStr (strftime_datetime obj)"
| "to_dict_value (PyDate obj) = PyStr (strftime_date obj)"
| "to_dict_value (PyStr obj) = PyStr obj"
| "to_dict_value (PyInt obj) = PyInt obj"

text \<open>\<^verbatim>\<open>to_dict\<close> on a dictionary (and on a model, through its \<^verbatim>\<open>dict()\<close>).\<close>

definition to_dict :: "py_dict \<Rightarrow> py_dict" where
  "to_dict obj = map (\<lambda>(k, v). (k, to_dict_value v)) obj"

text \<open>
  \<^verbatim>\<open>json2str\<close>: \<^verbatim>\<open>json.dumps(to_dict(obj), sort_keys=True)\<close>. The JSON text goes into a
  JSON column and comes back from the driver as a dictionary, so the document is kept
  here as the dictionary it denotes, keys sorted.
\<close>

definition json2str :: "py_dict \<Rightarrow> py_dict" where
  "json2str obj = sort_key fst (to_dict obj)"

subsection \<open>Field validation of the settings models\<close>

text \<open>
  A pydantic model with \<^verbatim>\<open>allow_population_by_field_name\<close> takes a field from the
  keyword named by its alias and, failing that, from the keyword named as the field;
  a field with neither gets its default, and a field with no default is an error.
  pydantic's further coercions (a number given for a time, a number given for a
  string, a string given for an integer) are not modelled: they are refused here, and
  no blob written by \<open>json2str\<close> needs them.
\<close>

datatype error = ValidationError | DatabaseError | ValueError

definition populate :: "py_dict \<Rightarrow> string \<Rightarrow> string \<Rightarrow> py_value option" where
  "populate kwargs alias field =
     (case map_of kwargs alias of Some v \<Rightarrow> Some v | None \<Rightarrow> map_of kwargs field)"

fun validate_datetime :: "py_value \<Rightarrow> datetime option" where
  "validate_datetime (PyDatetime d) = Some d"
| "validate_datetime (PyStr s) = parse_datetime s"
| "validate_datetime _ = None"

fun validate_date :: "py_value \<Rightarrow> date option" where
  "validate_date (PyDate d) = Some d"
| "validate_date (PyStr s) = parse_date s"
| "validate_date _ = None"

fun validate_str :: "py_value \<Rightarrow> string option" where
  "validate_str (PyStr s) = Some s"
| "validate_str _ = None"

fun validate_int :: "py_value \<Rightarrow> int option" where
  "validate_int (PyInt n) = Some n"
| "validate_int _ = None"

text \<open>One field: the keyword if given (validated), else the default if there is one.\<close>

definition field_value ::
  "py_dict \<Rightarrow> string \<Rightarrow> string \<Rightarrow> (py_value \<Rightarrow> 'a option) \<Rightarrow> 'a option \<Rightarrow> 'a option" where
  "field_value kwargs alias field validate dflt =
     (case populate kwargs alias field of Some v \<Rightarrow> validate v | None \<Rightarrow> dflt)"

section \<open>The destination database\<close>

subsection \<open>Tables with a unique key and a serial id\<close>

text \<open>
  A destination table is its rows by the columns of the unique constraint the insert
  names in \<^verbatim>\<open>ON CONFLICT\<close>; each row carries the \<^verbatim>\<open>id\<close> the sequence gave it and its
  other columns. \<open>last_id\<close> is the sequence: an insert draws a value from it before the
  conflict is looked for, so it advances on a conflict too.
\<close>

record ('k, 'v) pg_table =
  rows :: "'k \<rightharpoonup> int \<times> 'v"
  last_id :: int

definition empty_table :: "('k, 'v) pg_table" where
  "empty_table = \<lparr>rows = Map.empty, last_id = 0\<rparr>"

text \<open>\<^verbatim>\<open>INSERT ... ON CONFLICT (key) DO UPDATE SET\<close> every other column.\<close>

definition insert_do_update :: "('k, 'v) pg_table \<Rightarrow> 'k \<Rightarrow> 'v \<Rightarrow> ('k, 'v) pg_table" where
  "insert_do_update t k v =
     (let new_id = last_id t + 1 in
      case rows t k of
        None \<Rightarrow> \<lparr>rows = (rows t)(k \<mapsto> (new_id, v)), last_id = new_id\<rparr>
      | Some (row_id, old) \<Rightarrow> \<lparr>rows = (rows t)(k \<mapsto> (row_id, v)), last_id = new_id\<rparr>)"

text \<open>\<^verbatim>\<open>INSERT ... ON CONFLICT (key) DO NOTHING\<close>.\<close>

definition insert_do_nothing :: "('k, 'v) pg_table \<Rightarrow> 'k \<Rightarrow> 'v \<Rightarrow> ('k, 'v) pg_table" where
  "insert_do_nothing t k v =
     (let new_id = last_id t + 1 in
      case rows t k of
        None \<Rightarrow> \<lparr>rows = (rows t)(k \<mapsto> (new_id, v)), last_id = new_id\<rparr>
      | Some old \<Rightarrow> \<lparr>rows = rows t, last_id = new_id\<rparr>)"

text \<open>
  A statement that fails may have drawn its id before it failed: the server computes the
  defaults of the new row first and finds a violated constraint afterwards.
\<close>

definition nextval :: "('k, 'v) pg_table \<Rightarrow> ('k, 'v) pg_table" where
  "nextval t = t\<lparr>last_id := last_id t + 1\<rparr>"

text \<open>
  \<^verbatim>\<open>ROLLBACK\<close> gives a table the rows it had at the last commit. The sequence is not
  part of the transaction: the values drawn from it stay drawn.
\<close>

definition rollback_table :: "('k, 'v) pg_table \<Rightarrow> ('k, 'v) pg_table \<Rightarrow> ('k, 'v) pg_table" where
  "rollback_table committed view = \<lparr>rows = rows committed, last_id = last_id view\<rparr>"

subsection \<open>The checkpoint store (lib/etl\_settings\_repository.py)\<close>

text \<open>
  What one loader's destination connection reaches: its own tables \<open>dest\<close> and the
  table \<^verbatim>\<open>srv_wf_settings\<close> of its schema, unique on \<^verbatim>\<open>workflow_key\<close>.
\<close>

record 'd pg =
  dest :: 'd
  srv_wf_settings :: "(string, py_dict) pg_table"

record EtlSetting =
  setting_id :: int
  workflow_key :: string
  workflow_settings :: py_dict

text \<open>
  \<^verbatim>\<open>get_setting\<close>: the row of the key, or \<^verbatim>\<open>EtlSetting(id=0, workflow_key=wf_key)\<close> with
  the empty dictionary as settings when \<^verbatim>\<open>retrieve\<close> finds no row.
\<close>

definition get_setting :: "'d pg \<Rightarrow> string \<Rightarrow> EtlSetting" where
  "get_setting conn wf_key =
     (case rows (srv_wf_settings conn) wf_key of
        Some (row_id, blob) \<Rightarrow>
          \<lparr>setting_id = row_id, workflow_key = wf_key, workflow_settings = blob\<rparr>
      | None \<Rightarrow> \<lparr>setting_id = 0, workflow_key = wf_key, workflow_settings = []\<rparr>)"

text \<open>\<^verbatim>\<open>save_setting\<close>: the upsert of \<^verbatim>\<open>json2str(wf_settings)\<close> under the key.\<close>

definition save_setting :: "'d pg \<Rightarrow> string \<Rightarrow> py_dict \<Rightarrow> 'd pg" where
  "save_setting conn wf_key wf_settings =
     conn\<lparr>srv_wf_settings := insert_do_update (srv_wf_settings conn) wf_key (json2str wf_settings)\<rparr>"

text \<open>\<^verbatim>\<open>conn.rollback()\<close> on a connection that reaches these two tables.\<close>

definition rollback :: "('k, 'v) pg_table pg \<Rightarrow> ('k, 'v) pg_table pg \<Rightarrow> ('k, 'v) pg_table pg" where
  "rollback committed view =
     \<lparr>dest = rollback_table (dest committed) (dest view),
      srv_wf_settings = rollback_table (srv_wf_settings committed) (srv_wf_settings view)\<rparr>"

text \<open>
  What a reader of the database sees of it: the rows of the loader's table and the
  rows of the checkpoint table.
\<close>

definition same_rows :: "('k, 'v) pg_table pg \<Rightarrow> ('k, 'v) pg_table pg \<Rightarrow> bool" where
  "same_rows a b \<longleftrightarrow>
     rows (dest a) = rows (dest b) \<and> rows (srv_wf_settings a) = rows (srv_wf_settings b)"

subsection \<open>The connection scope (lib/connect.py)\<close>

text \<open>
  \<^verbatim>\<open>
  conn = self.client()
  try:
      yield conn
      conn.commit()
  except Exception as e:
      conn.rollback()
      raise e
  finally:
      conn.close()
  \<close>
  The body of the \<^verbatim>\<open>with\<close> block works on the transaction's view of the database and
  returns that view together with the exception it raised, if any. The result is the
  committed database after \<^verbatim>\<open>close\<close> and the exception that leaves the block.
  \<open>commit_raises\<close> says whether the server refuses the commit; the \<^verbatim>\<open>except\<close> clause
  catches that too and rolls back.
\<close>

definition PgConnect_connection ::
  "bool \<Rightarrow> ('k, 'v) pg_table pg
     \<Rightarrow> (('k, 'v) pg_table pg \<Rightarrow> ('k, 'v) pg_table pg \<times> error option)
     \<Rightarrow> ('k, 'v) pg_table pg \<times> error option" where
  "PgConnect_connection commit_raises committed body =
     (case body committed of
        (view, None) \<Rightarrow>
          if commit_raises then (rollback committed view, Some DatabaseError) else (view, None)
      | (view, Some e) \<Rightarrow> (rollback committed view, Some e))"

section \<open>The pipeline driver\<close>

text \<open>
  Every single-batch loader has the same \<^verbatim>\<open>run\<close>:
  \<^verbatim>\<open>
  with self.pg_origin.connection() as source, self.pg_dest.connection() as target:
      wf_setting = self.settings_repository.get_setting(target, self.WF_KEY)
      order_settings = OrderSettings(**wf_setting.workflow_settings)
      load_queue = self.workflow.list_orders(source, order_settings, self.BATCH_LIMIT)
      if not load_queue:
          return
      for order in load_queue:
          self.workflow.insert_order(target, order)
      last_loaded_order = max(load_queue)
      order_settings = OrderSettings(**last_loaded_order.dict())
      self.settings_repository.save_setting(target, wf_setting.workflow_key, order_settings)
  \<close>
  and differs in what a \<open>workflow\<close> holds: the key, the limit, the settings model, the
  read, the insert and the order of the records.
\<close>

record ('s, 'r, 'd) workflow =
  WF_KEY :: string
  BATCH_LIMIT :: nat
  Settings :: "py_dict \<Rightarrow> error + 's"
  list_objs :: "'s \<Rightarrow> nat \<Rightarrow> 'r list"
  insert_obj :: "'d \<Rightarrow> 'r \<Rightarrow> 'd"
  obj_lt :: "'r \<Rightarrow> 'r \<Rightarrow> bool"
  obj_dict :: "'r \<Rightarrow> py_dict"
  settings_dict :: "'s \<Rightarrow> py_dict"

text \<open>
  The database calls can raise; which of them do is the environment's choice, given as
  \<open>faults\<close>: the calls inside the block, the commit of the destination connection
  and the commit of the source connection. \<open>raises_after_nextval\<close> says whether an insert
  that raises had drawn its id from the sequence before.
\<close>

record 'r faults =
  get_setting_raises :: bool
  list_raises :: bool
  insert_raises :: "'r \<Rightarrow> bool"
  raises_after_nextval :: bool
  save_setting_raises :: bool
  commit_raises :: bool
  source_commit_raises :: bool

definition no_faults :: "'r faults" where
  "no_faults =
     \<lparr>get_setting_raises = False, list_raises = False, insert_raises = (\<lambda>r. False),
      raises_after_nextval = False, save_setting_raises = False, commit_raises = False,
      source_commit_raises = False\<rparr>"

text \<open>What an insert that raises leaves of the table in the transaction's view.\<close>

definition failed_insert :: "'r faults \<Rightarrow> ('k, 'v) pg_table \<Rightarrow> ('k, 'v) pg_table" where
  "failed_insert faults t = (if raises_after_nextval faults then nextval t else t)"

text \<open>The loop \<^verbatim>\<open>for order in load_queue: insert_order(target, order)\<close>.\<close>

fun insert_each ::
  "('d \<Rightarrow> 'r \<Rightarrow> 'd) \<Rightarrow> ('r \<Rightarrow> bool) \<Rightarrow> ('d \<Rightarrow> 'd) \<Rightarrow> 'd \<Rightarrow> 'r list \<Rightarrow> 'd \<times> error option" where
  "insert_each ins raises failed d [] = (d, None)"
| "insert_each ins raises failed d (r # load_queue) =
     (if raises r then (failed d, Some DatabaseError)
      else insert_each ins raises failed (ins d r) load_queue)"

definition run_body ::
  "('s, 'r, ('k, 'v) pg_table) workflow \<Rightarrow> 'r faults \<Rightarrow> ('k, 'v) pg_table pg
     \<Rightarrow> ('k, 'v) pg_table pg \<times> error option" where
  "run_body flow faults target =
     (if get_setting_raises faults then (target, Some DatabaseError) else
      let wf_setting = get_setting target (WF_KEY flow) in
      case Settings flow (workflow_settings wf_setting) of
        Inl e \<Rightarrow> (target, Some e)
      | Inr settings \<Rightarrow>
          if list_raises faults then (target, Some DatabaseError) else
          let load_queue = list_objs flow settings (BATCH_LIMIT flow) in
          if load_queue = [] then (target, None) else
          (case insert_each (insert_obj flow) (insert_raises faults) (failed_insert faults)
                  (dest target) load_queue of
             (d, Some e) \<Rightarrow> (target\<lparr>dest := d\<rparr>, Some e)
           | (d, None) \<Rightarrow>
               (case py_max (obj_lt flow) load_queue of
                  None \<Rightarrow> (target\<lparr>dest := d\<rparr>, Some ValueError)
                | Some last_loaded \<Rightarrow>
                    (case Settings flow (obj_dict flow last_loaded) of
                       Inl e \<Rightarrow> (target\<lparr>dest := d\<rparr>, Some e)
                     | Inr new_settings \<Rightarrow>
                         if save_setting_raises faults
                         then (target\<lparr>dest := d,
                                 srv_wf_settings := failed_insert faults (srv_wf_settings target)\<rparr>,
                               Some DatabaseError)
                         else (save_setting (target\<lparr>dest := d\<rparr>) (workflow_key wf_setting)
                                 (settings_dict flow new_settings), None)))))"

text \<open>
  \<^verbatim>\<open>with self.pg_origin.connection() as source, self.pg_dest.connection() as target\<close>
  nests the scope of the destination inside the scope of the source. The source is only
  read, so its scope adds one thing: when the block and the destination's commit went
  through, the source's own commit comes last and may still raise.
\<close>

definition run ::
  "('s, 'r, ('k, 'v) pg_table) workflow \<Rightarrow> 'r faults \<Rightarrow> ('k, 'v) pg_table pg
     \<Rightarrow> ('k, 'v) pg_table pg \<times> error option" where
  "run flow faults committed =
     (case PgConnect_connection (commit_raises faults) committed (run_body flow faults) of
        (db, None) \<Rightarrow>
          if source_commit_raises faults then (db, Some DatabaseError) else (db, None)
      | (db, Some e) \<Rightarrow> (db, Some e))"

section \<open>The orders loader (dds/dm\_orders\_loader.py)\<close>

record OrderSettings =
  last_loaded_ts :: datetime
  last_loaded_oid :: string

text \<open>
  \<^verbatim>\<open>OrderSettings(**kwargs)\<close>: \<^verbatim>\<open>last_loaded_ts\<close> has the alias \<^verbatim>\<open>update_ts\<close> and the
  default \<^verbatim>\<open>datetime.min\<close>, \<^verbatim>\<open>last_loaded_oid\<close> the alias \<^verbatim>\<open>object_id\<close> and the default
  \<^verbatim>\<open>str(ObjectId('0' * 24))\<close>.
\<close>

definition OrderSettings_init :: "py_dict \<Rightarrow> error + OrderSettings" where
  "OrderSettings_init kwargs =
     (case (field_value kwargs ''update_ts'' ''last_loaded_ts'' validate_datetime (Some datetime_min),
            field_value kwargs ''object_id'' ''last_loaded_oid'' validate_str (Some zero_oid)) of
        (Some ts, Some oid) \<Rightarrow> Inr \<lparr>last_loaded_ts = ts, last_loaded_oid = oid\<rparr>
      | _ \<Rightarrow> Inl ValidationError)"

definition OrderSettings_dict :: "OrderSettings \<Rightarrow> py_dict" where
  "OrderSettings_dict s =
     [(''last_loaded_ts'', PyDatetime (last_loaded_ts s)), (''last_loaded_oid'', PyStr (last_loaded_oid s))]"

text \<open>
  Of \<^verbatim>\<open>order.dict()\<close> the items that \<^verbatim>\<open>OrderSettings\<close> has a field for; pydantic ignores
  the other keywords.
\<close>

definition OrderObj_dict :: "OrderObj \<Rightarrow> py_dict" where
  "OrderObj_dict order =
     [(''object_id'', PyStr (object_id order)), (''update_ts'', PyDatetime (update_ts order))]"

text \<open>
  The query of \<^verbatim>\<open>list_orders\<close>. \<open>source\<close> is what its \<^verbatim>\<open>FROM ... GROUP BY\<close> yields: one
  record per staged order with the three keys the left joins found. Then
  \<^verbatim>\<open>WHERE update_ts > ts OR (update_ts = ts AND object_id > oid)\<close>,
  \<^verbatim>\<open>ORDER BY update_ts, object_id\<close> and \<^verbatim>\<open>LIMIT\<close>.
\<close>

definition order_after :: "OrderSettings \<Rightarrow> OrderObj \<Rightarrow> bool" where
  "order_after order_settings oo \<longleftrightarrow>
     datetime_key (update_ts oo) > datetime_key (last_loaded_ts order_settings)
     \<or> (datetime_key (update_ts oo) = datetime_key (last_loaded_ts order_settings)
        \<and> object_id oo > last_loaded_oid order_settings)"

definition select_orders :: "OrderObj list \<Rightarrow> OrderSettings \<Rightarrow> nat \<Rightarrow> OrderObj list" where
  "select_orders source order_settings limit =
     take limit (sort_key OrderObj_key (filter (order_after order_settings) source))"

definition list_orders :: "OrderObj list \<Rightarrow> OrderSettings \<Rightarrow> nat \<Rightarrow> OrderObj list" where
  "list_orders source order_settings limit =
     orders_gap_filter (select_orders source order_settings limit)"

text \<open>
  \<^verbatim>\<open>dds.dm_orders\<close>, unique on \<^verbatim>\<open>order_key\<close>; the other columns are
  \<^verbatim>\<open>(order_status, user_id, restaurant_id, timestamp_id)\<close>.
\<close>

type_synonym dm_orders = "(string, string \<times> int option \<times> int option \<times> int option) pg_table"

definition insert_order :: "dm_orders \<Rightarrow> OrderObj \<Rightarrow> dm_orders" where
  "insert_order target order =
     insert_do_update target (object_id order)
       (final_status order, user_fk order, restaurant_fk order, timestamp_fk order)"

definition OrdersToDdsWorkflow :: "OrderObj list \<Rightarrow> (OrderSettings, OrderObj, dm_orders) workflow" where
  "OrdersToDdsWorkflow source =
     \<lparr>WF_KEY = ''orders_stg_to_dds_workflow'', BATCH_LIMIT = 5000,
      Settings = OrderSettings_init, list_objs = list_orders source,
      insert_obj = insert_order, obj_lt = OrderObj_lt, obj_dict = OrderObj_dict,
      settings_dict = OrderSettings_dict\<rparr>"

definition OrdersLoader_run ::
  "OrderObj list \<Rightarrow> OrderObj faults \<Rightarrow> dm_orders pg \<Rightarrow> dm_orders pg \<times> error option" where
  "OrdersLoader_run source faults committed = run (OrdersToDdsWorkflow source) faults committed"

section \<open>The product sales loader (dds/fct\_product\_sales\_loader.py)\<close>

record ProductSaleSettings =
  sale_last_loaded_ts :: datetime
  last_loaded_product_id :: string

definition ProductSaleSettings_init :: "py_dict \<Rightarrow> error + ProductSaleSettings" where
  "ProductSaleSettings_init kwargs =
     (case (field_value kwargs ''event_ts'' ''last_loaded_ts'' validate_datetime (Some datetime_min),
            field_value kwargs ''product_id'' ''last_loaded_product_id'' validate_str (Some zero_oid)) of
        (Some ts, Some pid) \<Rightarrow> Inr \<lparr>sale_last_loaded_ts = ts, last_loaded_product_id = pid\<rparr>
      | _ \<Rightarrow> Inl ValidationError)"

definition ProductSaleSettings_dict :: "ProductSaleSettings \<Rightarrow> py_dict" where
  "ProductSaleSettings_dict s =
     [(''last_loaded_ts'', PyDatetime (sale_last_loaded_ts s)),
      (''last_loaded_product_id'', PyStr (last_loaded_product_id s))]"

definition ProductSaleObj_dict :: "'f ProductSaleObj \<Rightarrow> py_dict" where
  "ProductSaleObj_dict sale =
     [(''product_id'', PyStr (product_id sale)), (''event_ts'', PyDatetime (event_ts sale))]"

definition sale_after :: "ProductSaleSettings \<Rightarrow> 'f ProductSaleObj \<Rightarrow> bool" where
  "sale_after sale_settings be \<longleftrightarrow>
     datetime_key (event_ts be) > datetime_key (sale_last_loaded_ts sale_settings)
     \<or> (datetime_key (event_ts be) = datetime_key (sale_last_loaded_ts sale_settings)
        \<and> product_id be > last_loaded_product_id sale_settings)"

definition select_sales :: "'f ProductSaleObj list \<Rightarrow> ProductSaleSettings \<Rightarrow> nat \<Rightarrow> 'f ProductSaleObj list" where
  "select_sales source sale_settings limit =
     take limit (sort_key ProductSaleObj_key (filter (sale_after sale_settings) source))"

definition list_sales :: "'f ProductSaleObj list \<Rightarrow> ProductSaleSettings \<Rightarrow> nat \<Rightarrow> 'f ProductSaleObj list" where
  "list_sales source sale_settings limit = sales_gap_filter (select_sales source sale_settings limit)"

text \<open>
  \<^verbatim>\<open>dds.fct_product_sales\<close>, unique on \<^verbatim>\<open>(product_id, order_id)\<close>; the other columns
  are \<^verbatim>\<open>(count, price, total_sum, bonus_payment, bonus_grant)\<close>. \<open>float_mul\<close> is the float
  product \<^verbatim>\<open>quantity * price\<close>.
\<close>

type_synonym 'f fct_product_sales =
  "(string option \<times> string option, int \<times> 'f \<times> 'f \<times> 'f \<times> 'f) pg_table"

definition insert_sale ::
  "(int \<Rightarrow> 'f \<Rightarrow> 'f) \<Rightarrow> 'f fct_product_sales \<Rightarrow> 'f ProductSaleObj \<Rightarrow> 'f fct_product_sales" where
  "insert_sale float_mul target product_sale =
     insert_do_nothing target (product_fk product_sale, order_fk product_sale)
       (quantity product_sale, price product_sale, float_mul (quantity product_sale) (price product_sale),
        bonus_payment product_sale, bonus_grant product_sale)"

definition ProductSalesToDdsWorkflow ::
  "(int \<Rightarrow> 'f \<Rightarrow> 'f) \<Rightarrow> 'f ProductSaleObj list
     \<Rightarrow> (ProductSaleSettings, 'f ProductSaleObj, 'f fct_product_sales) workflow" where
  "ProductSalesToDdsWorkflow float_mul source =
     \<lparr>WF_KEY = ''product_sales_stg_to_dds_workflow'', BATCH_LIMIT = 10000,
      Settings = ProductSaleSettings_init, list_objs = list_sales source,
      insert_obj = insert_sale float_mul, obj_lt = ProductSaleObj_lt, obj_dict = ProductSaleObj_dict,
      settings_dict = ProductSaleSettings_dict\<rparr>"

definition ProductSalesLoader_run ::
  "(int \<Rightarrow> 'f \<Rightarrow> 'f) \<Rightarrow> 'f ProductSaleObj list \<Rightarrow> 'f ProductSaleObj faults
     \<Rightarrow> 'f fct_product_sales pg \<Rightarrow> 'f fct_product_sales pg \<times> error option" where
  "ProductSalesLoader_run float_mul source faults committed =
     run (ProductSalesToDdsWorkflow float_mul source) faults committed"

text \<open>A batch that is not empty has at least one record (used where a loop advances by it).\<close>

lemma length_nonempty: "xs \<noteq> [] \<Longrightarrow> \<exists>n. length xs = Suc n"
  by (cases xs) auto

section \<open>The couriers loader (dds/dm\_couriers\_loader.py)\<close>

text \<open>\<^verbatim>\<open>CourierObj\<close> with its fields \<^verbatim>\<open>id\<close>, \<^verbatim>\<open>object_id\<close> and \<^verbatim>\<open>name\<close>.\<close>

record CourierObj =
  c_id :: int
  c_object_id :: string
  c_name :: string

definition CourierObj_lt :: "CourierObj \<Rightarrow> CourierObj \<Rightarrow> bool" where
  "CourierObj_lt self other \<longleftrightarrow> c_id self < c_id other"

record CourierSettings =
  last_loaded_id :: int

text \<open>\<^verbatim>\<open>last_loaded_id: int = Field(alias='id', default=-1)\<close>.\<close>

definition CourierSettings_init :: "py_dict \<Rightarrow> error + CourierSettings" where
  "CourierSettings_init kwargs =
     (case field_value kwargs ''id'' ''last_loaded_id'' validate_int (Some (- 1)) of
        Some n \<Rightarrow> Inr \<lparr>last_loaded_id = n\<rparr>
      | None \<Rightarrow> Inl ValidationError)"

definition CourierSettings_dict :: "CourierSettings \<Rightarrow> py_dict" where
  "CourierSettings_dict s = [(''last_loaded_id'', PyInt (last_loaded_id s))]"

definition CourierObj_dict :: "CourierObj \<Rightarrow> py_dict" where
  "CourierObj_dict courier = [(''id'', PyInt (c_id courier))]"

text \<open>\<^verbatim>\<open>WHERE id > %(id_threshold)s ORDER BY id LIMIT %(limit)s\<close> over the staged couriers.\<close>

definition list_couriers :: "CourierObj list \<Rightarrow> CourierSettings \<Rightarrow> nat \<Rightarrow> CourierObj list" where
  "list_couriers source courier_settings limit =
     take limit (sort_key c_id (filter (\<lambda>c. c_id c > last_loaded_id courier_settings) source))"

text \<open>\<^verbatim>\<open>dds.dm_couriers\<close>, unique on \<^verbatim>\<open>courier_id\<close>; the other column is \<^verbatim>\<open>courier_name\<close>.\<close>

type_synonym dm_couriers = "(string, string) pg_table"

definition insert_courier :: "dm_couriers \<Rightarrow> CourierObj \<Rightarrow> dm_couriers" where
  "insert_courier target courier = insert_do_update target (c_object_id courier) (c_name courier)"

definition CouriersToStgWorkflow :: "CourierObj list \<Rightarrow> (CourierSettings, CourierObj, dm_couriers) workflow" where
  "CouriersToStgWorkflow source =
     \<lparr>WF_KEY = ''couriers_stg_to_dds_workflow'', BATCH_LIMIT = 50,
      Settings = CourierSettings_init, list_objs = list_couriers source,
      insert_obj = insert_courier, obj_lt = CourierObj_lt, obj_dict = CourierObj_dict,
      settings_dict = CourierSettings_dict\<rparr>"

definition CouriersLoader_run ::
  "CourierObj list \<Rightarrow> CourierObj faults \<Rightarrow> dm_couriers pg \<Rightarrow> dm_couriers pg \<times> error option" where
  "CouriersLoader_run source faults committed = run (CouriersToStgWorkflow source) faults committed"

section \<open>The settlement report loader (cdm/dm\_settlement\_report\_loader.py)\<close>

text \<open>
  \<^verbatim>\<open>RestaurantReportObj\<close>; its fields \<^verbatim>\<open>restaurant_id\<close>, \<^verbatim>\<open>restaurant_name\<close> and \<^verbatim>\<open>date\<close> carry
  the prefix \<open>report\<close> here. The sums are floats, of a type \<open>'f\<close> left open.
\<close>

record 'f RestaurantReportObj =
  report_restaurant_id :: string
  report_restaurant_name :: string
  report_date :: date
  orders_count :: int
  orders_total_sum :: 'f
  bonus_payment_sum :: 'f
  bonus_granted_sum :: 'f

definition RestaurantReportObj_lt :: "'f RestaurantReportObj \<Rightarrow> 'f RestaurantReportObj \<Rightarrow> bool" where
  "RestaurantReportObj_lt self other \<longleftrightarrow> date_key (report_date self) < date_key (report_date other)"

record RestaurantReportSettings =
  last_loaded_date :: date

text \<open>\<^verbatim>\<open>last_loaded_date: date = Field(alias='date', default=date.min)\<close>.\<close>

definition RestaurantReportSettings_init :: "py_dict \<Rightarrow> error + RestaurantReportSettings" where
  "RestaurantReportSettings_init kwargs =
     (case field_value kwargs ''date'' ''last_loaded_date'' validate_date (Some date_min) of
        Some d \<Rightarrow> Inr \<lparr>last_loaded_date = d\<rparr>
      | None \<Rightarrow> Inl ValidationError)"

definition RestaurantReportSettings_dict :: "RestaurantReportSettings \<Rightarrow> py_dict" where
  "RestaurantReportSettings_dict s = [(''last_loaded_date'', PyDate (last_loaded_date s))]"

definition RestaurantReportObj_dict :: "'f RestaurantReportObj \<Rightarrow> py_dict" where
  "RestaurantReportObj_dict report = [(''date'', PyDate (report_date report))]"

text \<open>
  The query of \<^verbatim>\<open>list_reports\<close>. \<open>source\<close> is what its joins and \<^verbatim>\<open>GROUP BY\<close> yield for the
  closed orders: one record per day and restaurant. Then \<^verbatim>\<open>dt.date >= %(date_threshold)s\<close>,
  \<^verbatim>\<open>ORDER BY dt.date\<close>, \<^verbatim>\<open>OFFSET\<close> and \<^verbatim>\<open>LIMIT\<close>.
\<close>

definition reports_from :: "'f RestaurantReportObj list \<Rightarrow> RestaurantReportSettings \<Rightarrow> 'f RestaurantReportObj list" where
  "reports_from source report_settings =
     sort_key (\<lambda>r. date_key (report_date r))
       (filter (\<lambda>r. date_key (report_date r) \<ge> date_key (last_loaded_date report_settings)) source)"

definition list_reports ::
  "'f RestaurantReportObj list \<Rightarrow> RestaurantReportSettings \<Rightarrow> nat \<Rightarrow> nat \<Rightarrow> 'f RestaurantReportObj list" where
  "list_reports source report_settings offset limit =
     take limit (drop offset (reports_from source report_settings))"

text \<open>
  The float arithmetic of \<^verbatim>\<open>insert_report\<close>: the product, the difference and the
  constant \<^verbatim>\<open>0.25\<close>.
\<close>

record 'f float_ops =
  fmul :: "'f \<Rightarrow> 'f \<Rightarrow> 'f"
  fsub :: "'f \<Rightarrow> 'f \<Rightarrow> 'f"
  quarter :: 'f

text \<open>
  \<^verbatim>\<open>cdm.dm_settlement_report\<close>, unique on \<^verbatim>\<open>(settlement_date, restaurant_id)\<close>; the other
  columns are \<^verbatim>\<open>restaurant_name\<close> and the six figures \<^verbatim>\<open>(orders_count, orders_total_sum,
  orders_bonus_payment_sum, orders_bonus_granted_sum, order_processing_fee,
  restaurant_reward_sum)\<close>. On a conflict the six figures are overwritten and the name
  stays.
\<close>

type_synonym 'f report_figures = "int \<times> 'f \<times> 'f \<times> 'f \<times> 'f \<times> 'f"

type_synonym 'f dm_settlement_report = "(date \<times> string, string \<times> 'f report_figures) pg_table"

text \<open>The parameters of the statement: the key columns and the six figures.\<close>

definition report_key :: "'f RestaurantReportObj \<Rightarrow> date \<times> string" where
  "report_key report = (report_date report, report_restaurant_id report)"

definition report_figures :: "'f float_ops \<Rightarrow> 'f RestaurantReportObj \<Rightarrow> 'f report_figures" where
  "report_figures ops report =
     (orders_count report, orders_total_sum report, bonus_payment_sum report,
      bonus_granted_sum report, fmul ops (orders_total_sum report) (quarter ops),
      fsub ops (fsub ops (orders_total_sum report) (fmul ops (orders_total_sum report) (quarter ops)))
        (bonus_payment_sum report))"

definition insert_report ::
  "'f float_ops \<Rightarrow> 'f dm_settlement_report \<Rightarrow> 'f RestaurantReportObj \<Rightarrow> 'f dm_settlement_report" where
  "insert_report ops target report =
     (let new_id = last_id target + 1 in
      case rows target (report_key report) of
        None \<Rightarrow>
          \<lparr>rows = (rows target)(report_key report \<mapsto>
                    (new_id, report_restaurant_name report, report_figures ops report)),
           last_id = new_id\<rparr>
      | Some (row_id, name, old) \<Rightarrow>
          \<lparr>rows = (rows target)(report_key report \<mapsto> (row_id, name, report_figures ops report)),
           last_id = new_id\<rparr>)"

text \<open>The figures that the last record of a key in a batch carries.\<close>

definition last_figures ::
  "'f float_ops \<Rightarrow> 'f RestaurantReportObj list \<Rightarrow> date \<times> string \<Rightarrow> 'f report_figures option" where
  "last_figures ops batch = map_of (rev (map (\<lambda>r. (report_key r, report_figures ops r)) batch))"

text \<open>
  The loop of \<^verbatim>\<open>run\<close>:
  \<^verbatim>\<open>
  offset = 0
  last_loaded_report = None
  while True:
      load_queue = self.workflow.list_reports(source, report_settings, offset, self.BATCH_LIMIT)
      if not load_queue:
          break
      for report in load_queue:
          self.workflow.insert_report(target, report)
      offset += len(load_queue)
      last_loaded_report = max(load_queue)
  \<close>
\<close>

function drain_reports ::
  "'f float_ops \<Rightarrow> 'f RestaurantReportObj list \<Rightarrow> RestaurantReportSettings \<Rightarrow> nat \<Rightarrow> nat
     \<Rightarrow> 'f RestaurantReportObj option \<Rightarrow> 'f dm_settlement_report
     \<Rightarrow> 'f dm_settlement_report \<times> 'f RestaurantReportObj option" where
  "drain_reports ops source report_settings limit offset last_loaded_report target =
     (let load_queue = list_reports source report_settings offset limit in
      if load_queue = [] then (target, last_loaded_report)
      else drain_reports ops source report_settings limit (offset + length load_queue)
             (py_max RestaurantReportObj_lt load_queue)
             (foldl (insert_report ops) target load_queue))"
  by pat_completeness auto
termination
proof (relation "measure (\<lambda>(ops, source, report_settings, limit, offset, last, target).
                    length (reports_from source report_settings) - offset)")
  show "wf (measure (\<lambda>(ops, source, report_settings, limit, offset, last, target).
                    length (reports_from source report_settings) - offset))"
    by simp
next
  fix ops :: "'f float_ops" and source report_settings limit offset
    and last_loaded_report :: "'f RestaurantReportObj option"
    and target :: "'f dm_settlement_report" and load_queue :: "'f RestaurantReportObj list"
  assume q: "load_queue = list_reports source report_settings offset limit" "load_queue \<noteq> []"
  then have "offset < length (reports_from source report_settings)"
    by (auto simp: list_reports_def)
  moreover from q obtain n where "length load_queue = Suc n"
    using length_nonempty by blast
  ultimately show
    "((ops, source, report_settings, limit, offset + length load_queue,
       py_max RestaurantReportObj_lt load_queue, foldl (insert_report ops) target load_queue),
      (ops, source, report_settings, limit, offset, last_loaded_report, target))
     \<in> measure (\<lambda>(ops, source, report_settings, limit, offset, last, target).
                    length (reports_from source report_settings) - offset)"
    by simp
qed

declare drain_reports.simps [simp del]

text \<open>
  \<^verbatim>\<open>run\<close>: the checkpoint, the loop, and the checkpoint of the last record if there is
  one. The database calls are taken not to raise here; a checkpoint that does not
  validate raises before anything is written.
\<close>

definition SettlementReportLoader_body ::
  "'f float_ops \<Rightarrow> 'f RestaurantReportObj list \<Rightarrow> 'f dm_settlement_report pg
     \<Rightarrow> 'f dm_settlement_report pg \<times> error option" where
  "SettlementReportLoader_body ops source target =
     (let wf_setting = get_setting target ''settlement_report_dds_to_cdm_workflow'' in
      case RestaurantReportSettings_init (workflow_settings wf_setting) of
        Inl e \<Rightarrow> (target, Some e)
      | Inr report_settings \<Rightarrow>
          (case drain_reports ops source report_settings 100 0 None (dest target) of
             (d, None) \<Rightarrow> (target\<lparr>dest := d\<rparr>, None)
           | (d, Some last_loaded_report) \<Rightarrow>
               (case RestaurantReportSettings_init (RestaurantReportObj_dict last_loaded_report) of
                  Inl e \<Rightarrow> (target\<lparr>dest := d\<rparr>, Some e)
                | Inr new_settings \<Rightarrow>
                    (save_setting (target\<lparr>dest := d\<rparr>) (workflow_key wf_setting)
                       (RestaurantReportSettings_dict new_settings), None))))"

definition SettlementReportLoader_run ::
  "'f float_ops \<Rightarrow> 'f RestaurantReportObj list \<Rightarrow> 'f dm_settlement_report pg
     \<Rightarrow> 'f dm_settlement_report pg \<times> error option" where
  "SettlementReportLoader_run ops source committed =
     PgConnect_connection False committed (SettlementReportLoader_body ops source)"

section \<open>The staged orders reader (stg/stg\_2/order\_system\_orders\_loader.py)\<close>

text \<open>
  The document store's \<^verbatim>\<open>find(filter, sort, limit)\<close> as \<^verbatim>\<open>MongoReader.list\<close> calls it: the
  documents that match, sorted, and of those the first \<open>limit\<close>; a limit of 0 asks for
  all of them.
\<close>

definition MongoReader_list :: "('a \<Rightarrow> bool) \<Rightarrow> ('a \<Rightarrow> 'k::linorder) \<Rightarrow> nat \<Rightarrow> 'a list \<Rightarrow> 'a list" where
  "MongoReader_list matches order_by limit collection =
     (let found = sort_key order_by (filter matches collection) in
      if limit = 0 then found else take limit found)"

text \<open>
  \<^verbatim>\<open>OrderObj\<close> of the staging loader: \<^verbatim>\<open>object_id\<close> (an \<^verbatim>\<open>ObjectId\<close>, kept as its 24
  hexadecimal digits, whose order is the order of the ids) and \<^verbatim>\<open>update_ts\<close>.
\<close>

record StgOrderObj =
  stg_object_id :: string
  stg_update_ts :: datetime

definition StgOrderObj_key :: "StgOrderObj \<Rightarrow> datetime_key \<times> string" where
  "StgOrderObj_key order = (datetime_key (stg_update_ts order), stg_object_id order)"

record StgOrderSettings =
  stg_last_loaded_ts :: datetime
  stg_last_loaded_oid :: string

text \<open>
  The filter \<^verbatim>\<open>{'$or': [{'update_ts': {'$gt': ts}}, {'$and': [{'update_ts': {'$eq': ts}},
  {'_id': {'$gt': oid}}]}]}\<close> and the sort \<^verbatim>\<open>[('update_ts', 1), ('_id', 1)]\<close>.
\<close>

definition stg_order_after :: "StgOrderSettings \<Rightarrow> StgOrderObj \<Rightarrow> bool" where
  "stg_order_after order_settings doc \<longleftrightarrow>
     datetime_key (stg_update_ts doc) > datetime_key (stg_last_loaded_ts order_settings)
     \<or> (datetime_key (stg_update_ts doc) = datetime_key (stg_last_loaded_ts order_settings)
        \<and> stg_object_id doc > stg_last_loaded_oid order_settings)"

definition list_stg_orders :: "StgOrderObj list \<Rightarrow> StgOrderSettings \<Rightarrow> nat \<Rightarrow> StgOrderObj list" where
  "list_stg_orders collection order_settings limit =
     MongoReader_list (stg_order_after order_settings) StgOrderObj_key limit collection"

section \<open>The deliveries loader (stg/stg\_3/delivery\_system\_deliveries\_loader.py)\<close>




text \<open>
  The paginated read of \<^verbatim>\<open>list_deliveries\<close>; \<open>get offset n\<close> is the request for the page of
  \<open>n\<close> records at \<open>offset\<close>:
  \<^verbatim>\<open>
  deliveries = []
  page_size = 50
  offset = 0
  while offset < limit:
      batch = super().list(... 'offset': offset, 'limit': page_size ...)
      if not batch:
          break
      deliveries += batch
      offset += len(batch)
  return deliveries[:limit]
  \<close>
\<close>

function fetch_pages :: "(nat \<Rightarrow> nat \<Rightarrow> 'a list) \<Rightarrow> nat \<Rightarrow> nat \<Rightarrow> nat \<Rightarrow> 'a list \<Rightarrow> 'a list" where
  "fetch_pages get page_size limit offset deliveries =
     (if offset < limit then
        (let batch = get offset page_size in
         if batch = [] then deliveries
         else fetch_pages get page_size limit (offset + length batch) (deliveries @ batch))
      else deliveries)"
  by pat_completeness auto
termination
proof (relation "measure (\<lambda>(get, page_size, limit, offset, deliveries). limit - offset)")
  show "wf (measure (\<lambda>(get, page_size, limit, offset, deliveries). limit - offset))"
    by simp
next
  fix get :: "nat \<Rightarrow> nat \<Rightarrow> 'a list" and page_size limit offset :: nat
    and deliveries batch :: "'a list"
  assume "offset < limit" "batch = get offset page_size" "batch \<noteq> []"
  moreover then obtain n where "length batch = Suc n"
    using length_nonempty by blast
  ultimately show
    "((get, page_size, limit, offset + length batch, deliveries @ batch),
      (get, page_size, limit, offset, deliveries))
     \<in> measure (\<lambda>(get, page_size, limit, offset, deliveries). limit - offset)"
    by simp
qed

declare fetch_pages.simps [simp del]

definition paginated_read :: "(nat \<Rightarrow> nat \<Rightarrow> 'a list) \<Rightarrow> nat \<Rightarrow> nat \<Rightarrow> 'a list" where
  "paginated_read get page_size limit = take limit (fetch_pages get page_size limit 0 [])"

definition list_deliveries :: "(nat \<Rightarrow> nat \<Rightarrow> 'a list) \<Rightarrow> nat \<Rightarrow> 'a list" where
  "list_deliveries get limit = paginated_read get 50 limit"

text \<open>
  The endpoint \<^verbatim>\<open>/deliveries\<close> belongs to the delivery system. It is taken to serve a
  fixed ordered sequence \<open>records\<close> (the deliveries from the requested time on, sorted as
  requested) by offset and limit.
\<close>

definition endpoint :: "'a list \<Rightarrow> nat \<Rightarrow> nat \<Rightarrow> 'a list" where
  "endpoint records offset n = take n (drop offset records)"

section \<open>The slowly-changing writer (dds/dm\_restaurants\_loader.py)\<close>

text \<open>
  \<^verbatim>\<open>RestaurantObj\<close> with its fields \<^verbatim>\<open>object_id\<close>, \<^verbatim>\<open>name\<close> and \<^verbatim>\<open>update_ts\<close>. The loader
  inserts only records that passed its test \<^verbatim>\<open>if not restaurant.object_id\<close>, so the id
  is a string here.
\<close>

record RestaurantObj =
  r_object_id :: string
  r_name :: string
  r_update_ts :: datetime

text \<open>\<^verbatim>\<open>dds.dm_restaurants\<close>: its rows, unique on \<^verbatim>\<open>(restaurant_id, active_to)\<close>, and its id sequence.\<close>

record dm_restaurant =
  row_id :: int
  restaurant_id :: string
  restaurant_name :: string
  active_from :: datetime
  active_to :: datetime

record dm_restaurants =
  restaurant_rows :: "dm_restaurant list"
  restaurant_last_id :: int

text \<open>\<^verbatim>\<open>datetime(2099, 12, 31)\<close>, the open end.\<close>

definition open_end :: datetime where
  "open_end = \<lparr>year = 2099, month = 12, day = 31, hour = 0, minute = 0, second = 0, microsecond = 0\<rparr>"

text \<open>\<^verbatim>\<open>SELECT MAX(id) FROM dds.dm_restaurants WHERE restaurant_id = %(restaurant_id)s\<close>.\<close>

definition latest_id :: "dm_restaurant list \<Rightarrow> string \<Rightarrow> int option" where
  "latest_id table rid =
     (case map row_id (filter (\<lambda>r. restaurant_id r = rid) table) of
        [] \<Rightarrow> None
      | i # ids \<Rightarrow> Some (fold max ids i))"

text \<open>
  \<^verbatim>\<open>insert_restaurant\<close> is one statement: an \<^verbatim>\<open>UPDATE\<close> in a \<^verbatim>\<open>WITH\<close> clause that the main
  \<^verbatim>\<open>INSERT ... ON CONFLICT (restaurant_id, active_to) DO NOTHING\<close> does not refer to.
  In PostgreSQL the sub-statements of one statement work on the same snapshot and do
  not see one another's effects on the table: the update and the insert each meet the
  table as the statement found it, and the statement leaves behind the effects of both.
  A result that breaks the unique constraint is an error.
\<close>

definition insert_restaurant :: "dm_restaurants \<Rightarrow> RestaurantObj \<Rightarrow> error + dm_restaurants" where
  "insert_restaurant target restaurant =
     (let snapshot = restaurant_rows target;
          new_id = restaurant_last_id target + 1;
          latest = latest_id snapshot (r_object_id restaurant);
          updated =
            map (\<lambda>r. if Some (row_id r) = latest \<and> restaurant_name r \<noteq> r_name restaurant
                      then r\<lparr>active_to := r_update_ts restaurant\<rparr> else r) snapshot;
          conflict =
            list_ex (\<lambda>r. restaurant_id r = r_object_id restaurant \<and> active_to r = open_end) snapshot;
          inserted =
            (if conflict then []
             else [\<lparr>row_id = new_id, restaurant_id = r_object_id restaurant,
                     restaurant_name = r_name restaurant, active_from = r_update_ts restaurant,
                     active_to = open_end\<rparr>]);
          result = updated @ inserted
      in if distinct (map (\<lambda>r. (restaurant_id r, active_to r)) result)
         then Inr \<lparr>restaurant_rows = result, restaurant_last_id = new_id\<rparr>
         else Inl DatabaseError)"

text \<open>The rows of a natural key that carry the open end.\<close>

definition open_rows :: "dm_restaurants \<Rightarrow> string \<Rightarrow> dm_restaurant list" where
  "open_rows table rid =
     filter (\<lambda>r. restaurant_id r = rid \<and> active_to r = open_end) (restaurant_rows table)"

section \<open>Sample records for the concrete instances\<close>

definition at_second :: "nat \<Rightarrow> nat \<Rightarrow> datetime" where
  "at_second s us =
     \<lparr>year = 2022, month = 1, day = 1, hour = 10, minute = 0, second = s, microsecond = us\<rparr>"

definition order_at :: "nat \<Rightarrow> string \<Rightarrow> int option \<Rightarrow> int option \<Rightarrow> int option \<Rightarrow> OrderObj" where
  "order_at s oid u r t =
     \<lparr>object_id = oid, update_ts = at_second s 0, final_status = ''CLOSED'',
      user_fk = u, restaurant_fk = r, timestamp_fk = t\<rparr>"

definition sale_at :: "nat \<Rightarrow> string \<Rightarrow> string option \<Rightarrow> string option \<Rightarrow> int ProductSaleObj" where
  "sale_at s pid ofk pfk =
     \<lparr>product_id = pid, price = 100, quantity = 1, bonus_payment = 0, bonus_grant = 0,
      event_ts = at_second s 0, order_fk = ofk, product_fk = pfk\<rparr>"

text \<open>A day of January 2022, a report, a staged order, a restaurant version and a row.\<close>

definition on_day :: "nat \<Rightarrow> date" where
  "on_day n = \<lparr>date_year = 2022, date_month = 1, date_day = n\<rparr>"

definition report_on :: "nat \<Rightarrow> string \<Rightarrow> rat \<Rightarrow> rat RestaurantReportObj" where
  "report_on n rid amount =
     \<lparr>report_restaurant_id = rid, report_restaurant_name = ''R'', report_date = on_day n,
      orders_count = 1, orders_total_sum = amount, bonus_payment_sum = 0, bonus_granted_sum = 0\<rparr>"

definition stg_order_at :: "nat \<Rightarrow> string \<Rightarrow> StgOrderObj" where
  "stg_order_at s oid = \<lparr>stg_object_id = oid, stg_update_ts = at_second s 0\<rparr>"

definition restaurant_v :: "string \<Rightarrow> nat \<Rightarrow> RestaurantObj" where
  "restaurant_v nm s = \<lparr>r_object_id = ''r'', r_name = nm, r_update_ts = at_second s 0\<rparr>"

definition restaurant_row :: "int \<Rightarrow> string \<Rightarrow> datetime \<Rightarrow> datetime \<Rightarrow> dm_restaurant" where
  "restaurant_row i nm t0 t1 =
     \<lparr>row_id = i, restaurant_id = ''r'', restaurant_name = nm, active_from = t0, active_to = t1\<rparr>"

text \<open>The staged couriers 1 to \<open>n\<close>, and exact arithmetic on rationals in place of the floats.\<close>

definition courier_no :: "int \<Rightarrow> CourierObj" where
  "courier_no n = \<lparr>c_id = n, c_object_id = pad4 (nat n), c_name = ''courier''\<rparr>"

definition couriers_upto :: "int \<Rightarrow> CourierObj list" where
  "couriers_upto n = map courier_no [1..n]"

definition exact_ops :: "rat float_ops" where
  "exact_ops = \<lparr>fmul = (\<lambda>a b. a * b), fsub = (\<lambda>a b. a - b), quarter = 1 / 4\<rparr>"

text \<open>A destination with no rows and no checkpoint.\<close>

definition empty_pg :: "('k, 'v) pg_table pg" where
  "empty_pg = \<lparr>dest = empty_table, srv_wf_settings = empty_table\<rparr>"

text \<open>
  An environment in which the insert of the order \<^verbatim>\<open>b\<close> raises, after the server drew
  an id for it.
\<close>

definition second_insert_raises :: "OrderObj faults" where
  "second_insert_raises =
     no_faults\<lparr>insert_raises := (\<lambda>order. object_id order = ''b''), raises_after_nextval := True\<rparr>"

text \<open>An order updated half a second after 10:00:12.\<close>

definition order_half_past :: "string \<Rightarrow> OrderObj" where
  "order_half_past oid =
     \<lparr>object_id = oid, update_ts = at_second 12 500000, final_status = ''CLOSED'',
      user_fk = Some 7, restaurant_fk = Some 3, timestamp_fk = Some 9\<rparr>"

section \<open>Properties of the gap filter\<close>

lemma truncate_at_gap_takeWhile:
  "truncate_at_gap ok (pre @ rest) (length pre) rest = pre @ takeWhile ok rest"
proof (induction rest arbitrary: pre)
  case Nil
  then show ?case by simp
next
  case (Cons x rest)
  have "truncate_at_gap ok ((pre @ [x]) @ rest) (length (pre @ [x])) rest
          = (pre @ [x]) @ takeWhile ok rest"
    by (rule Cons.IH)
  then show ?case by simp
qed

lemma truncate_at_gap_0: "truncate_at_gap ok xs 0 xs = takeWhile ok xs"
  using truncate_at_gap_takeWhile [of ok "[]" xs] by simp

lemma takeWhile_first_failure:
  assumes "i < length xs" "\<not> ok (xs ! i)" "\<forall>j<i. ok (xs ! j)"
  shows "takeWhile ok xs = take i xs"
proof -
  have "takeWhile ok (take i xs @ drop i xs) = take i xs @ takeWhile ok (drop i xs)"
  proof (rule takeWhile_append2)
    fix x assume "x \<in> set (take i xs)"
    then obtain j where "j < i" "x = xs ! j"
      using assms(1) by (auto simp: in_set_conv_nth)
    with assms(3) show "ok x" by simp
  qed
  moreover have "takeWhile ok (drop i xs) = []"
    using assms(1,2) by (simp add: takeWhile_eq_Nil_iff hd_drop_conv_nth)
  ultimately show ?thesis by simp
qed

text \<open>What the loader's test \<^verbatim>\<open>not all([...])\<close> accepts as a gap, spelled out.\<close>

lemma order_fks_ok_iff:
  "order_fks_ok order \<longleftrightarrow>
     (\<exists>u r t. user_fk order = Some u \<and> restaurant_fk order = Some r \<and> timestamp_fk order = Some t
        \<and> u \<noteq> 0 \<and> r \<noteq> 0 \<and> t \<noteq> 0)"
  by (cases "user_fk order"; cases "restaurant_fk order"; cases "timestamp_fk order")
     (simp_all add: order_fks_ok_def py_all_def)

lemma sale_fks_ok_iff:
  "sale_fks_ok sale \<longleftrightarrow>
     (\<exists>a b. order_fk sale = Some a \<and> product_fk sale = Some b \<and> a \<noteq> [] \<and> b \<noteq> [])"
  by (cases "order_fk sale"; cases "product_fk sale")
     (simp_all add: sale_fks_ok_def py_all_def)

lemma order_ref_falsy_iff: "order_ref_falsy x \<longleftrightarrow> \<not> order_fks_ok x"
  by (cases "user_fk x"; cases "restaurant_fk x"; cases "timestamp_fk x")
     (auto simp: order_ref_falsy_def order_fks_ok_def py_all_def)

lemma sale_ref_falsy_iff: "sale_ref_falsy x \<longleftrightarrow> \<not> sale_fks_ok x"
  by (cases "order_fk x"; cases "product_fk x")
     (auto simp: sale_ref_falsy_def sale_fks_ok_def py_all_def)

lemma orders_gap_filter_takeWhile: "orders_gap_filter orders = takeWhile order_fks_ok orders"
  by (simp add: orders_gap_filter_def truncate_at_gap_0)

lemma sales_gap_filter_takeWhile: "sales_gap_filter sales = takeWhile sale_fks_ok sales"
  by (simp add: sales_gap_filter_def truncate_at_gap_0)

text \<open>
  What the loop does with any batch: it stops at the first record with a required
  reference that is absent or falsy (\<^verbatim>\<open>None\<close>, the integer 0, the empty string) and
  returns exactly the records before that one, in their order; when no record has such
  a reference the batch comes back unchanged.
\<close>

lemma gap_filter_stops_at_first_falsy_reference:
  "(i < length orders \<and> order_ref_falsy (orders ! i) \<and> (\<forall>j<i. \<not> order_ref_falsy (orders ! j))
      \<longrightarrow> orders_gap_filter orders = take i orders)
   \<and> ((\<forall>order\<in>set orders. \<not> order_ref_falsy order) \<longrightarrow> orders_gap_filter orders = orders)
   \<and> (k < length sales \<and> sale_ref_falsy (sales ! k) \<and> (\<forall>j<k. \<not> sale_ref_falsy (sales ! j))
      \<longrightarrow> sales_gap_filter sales = take k sales)
   \<and> ((\<forall>sale\<in>set sales. \<not> sale_ref_falsy sale) \<longrightarrow> sales_gap_filter sales = sales)"
  unfolding order_ref_falsy_iff sale_ref_falsy_iff orders_gap_filter_takeWhile
    sales_gap_filter_takeWhile
  by (auto intro: takeWhile_first_failure simp: takeWhile_eq_all_conv)


text \<open>
  Claim C10. A record whose required reference resolved to a falsy value (the integer 0
  in the orders loader, the empty string in the sales loader) is cut off exactly like
  a record whose reference is absent: when the records before it pass the test, the
  batch is truncated immediately before it, and the outcome is the one the same batch
  gives with that reference set to \<^verbatim>\<open>None\<close>.
\<close>

theorem falsy_reference_is_treated_as_absent:
  "((user_fk order = Some 0 \<or> restaurant_fk order = Some 0 \<or> timestamp_fk order = Some 0)
      \<and> (\<forall>x\<in>set pre. order_fks_ok x)
      \<longrightarrow> orders_gap_filter (pre @ order # post) = pre
        \<and> orders_gap_filter (pre @ order\<lparr>user_fk := None\<rparr> # post) = pre)
   \<and> ((order_fk sale = Some [] \<or> product_fk sale = Some []) \<and> (\<forall>x\<in>set spre. sale_fks_ok x)
      \<longrightarrow> sales_gap_filter (spre @ sale # spost) = spre
        \<and> sales_gap_filter (spre @ sale\<lparr>order_fk := None\<rparr> # spost) = spre)"
proof -
  have 1: "\<not> order_fks_ok order"
    if "user_fk order = Some 0 \<or> restaurant_fk order = Some 0 \<or> timestamp_fk order = Some 0"
    using that by (auto simp: order_fks_ok_iff)
  have 2: "\<not> order_fks_ok (order\<lparr>user_fk := None\<rparr>)"
    by (simp add: order_fks_ok_iff)
  have 3: "\<not> sale_fks_ok sale" if "order_fk sale = Some [] \<or> product_fk sale = Some []"
    using that by (auto simp: sale_fks_ok_iff)
  have 4: "\<not> sale_fks_ok (sale\<lparr>order_fk := None\<rparr>)"
    by (simp add: sale_fks_ok_iff)
  show ?thesis
    using 1 2 3 4
    by (simp add: orders_gap_filter_takeWhile sales_gap_filter_takeWhile takeWhile_append2
          del: takeWhile_append)
qed

theorem falsy_reference_witness:
  "orders_gap_filter
     [order_at 1 ''a'' (Some 7) (Some 3) (Some 9), order_at 2 ''b'' (Some 7) (Some 0) (Some 9),
      order_at 3 ''c'' (Some 7) (Some 3) (Some 9)]
     = [order_at 1 ''a'' (Some 7) (Some 3) (Some 9)]
   \<and> sales_gap_filter
     [sale_at 1 ''p'' (Some ''4'') (Some ''5''), sale_at 2 ''q'' (Some ''4'') (Some []),
      sale_at 3 ''r'' (Some ''4'') (Some ''5'')]
     = [sale_at 1 ''p'' (Some ''4'') (Some ''5'')]"
  using falsy_reference_is_treated_as_absent
          [of "order_at 2 ''b'' (Some 7) (Some 0) (Some 9)"
              "[order_at 1 ''a'' (Some 7) (Some 3) (Some 9)]"
              "[order_at 3 ''c'' (Some 7) (Some 3) (Some 9)]"
              "sale_at 2 ''q'' (Some ''4'') (Some [])"
              "[sale_at 1 ''p'' (Some ''4'') (Some ''5'')]"
              "[sale_at 3 ''r'' (Some ''4'') (Some ''5'')]"]
  by (simp add: order_at_def sale_at_def order_fks_ok_iff sale_fks_ok_iff)

section \<open>Properties of the driver\<close>

lemma foldl_max_key:
  fixes key :: "'a \<Rightarrow> 'k::linorder"
  defines "step \<equiv> (\<lambda>best item. if key best < key item then item else best)"
  shows "foldl step x xs \<in> set (x # xs) \<and> (\<forall>y\<in>set (x # xs). key y \<le> key (foldl step x xs))"
proof (induction xs arbitrary: x)
  case Nil
  then show ?case by simp
next
  case (Cons a xs)
  show ?case
  proof (cases "key x < key a")
    case True
    then have "step x a = a" by (simp add: step_def)
    with Cons.IH [of a] True show ?thesis by auto
  next
    case False
    then have "step x a = x" by (simp add: step_def)
    with Cons.IH [of x] False show ?thesis by auto
  qed
qed

lemma py_max_key:
  fixes key :: "'a \<Rightarrow> 'k::linorder"
  assumes "xs \<noteq> []"
  shows "\<exists>m. py_max (\<lambda>a b. key a < key b) xs = Some m \<and> m \<in> set xs \<and> (\<forall>y\<in>set xs. key y \<le> key m)"
proof (cases xs)
  case Nil
  with assms show ?thesis by simp
next
  case (Cons x rest)
  then show ?thesis using foldl_max_key [of key x rest] by simp
qed

lemma insert_each_ok:
  "insert_each ins raises failed d q = (d', None) \<Longrightarrow>
   d' = foldl ins d q \<and> (\<forall>r\<in>set q. \<not> raises r)"
  by (induction q arbitrary: d) (auto split: if_splits)

lemma insert_each_no_raise:
  "\<forall>r\<in>set q. \<not> raises r \<Longrightarrow> insert_each ins raises failed d q = (foldl ins d q, None)"
  by (induction q arbitrary: d) auto

lemma insert_each_raise:
  "\<exists>r\<in>set q. raises r \<Longrightarrow> snd (insert_each ins raises failed d q) = Some DatabaseError"
  by (induction q arbitrary: d) auto

lemma workflow_key_get_setting [simp]: "workflow_key (get_setting db k) = k"
  by (simp add: get_setting_def split: option.splits)

lemma rollback_same [simp]: "rollback db db = db"
  by (simp add: rollback_def rollback_table_def)

lemma same_rows_rollback [simp]: "same_rows (rollback db view) db"
  by (simp add: same_rows_def rollback_def rollback_table_def)

lemma same_rows_refl [simp]: "same_rows db db"
  by (simp add: same_rows_def)

lemma connection_error:
  "snd (body db) = Some e \<Longrightarrow>
   PgConnect_connection c db body = (rollback db (fst (body db)), Some e)"
  by (cases "body db") (simp add: PgConnect_connection_def)

lemma connection_ok:
  "snd (body db) = None \<Longrightarrow> \<not> c \<Longrightarrow> PgConnect_connection c db body = (fst (body db), None)"
  by (cases "body db") (simp add: PgConnect_connection_def)

lemma connection_unchanged_on_error:
  "snd (PgConnect_connection c db body) \<noteq> None \<Longrightarrow>
   same_rows (fst (PgConnect_connection c db body)) db"
  by (cases "body db") (auto simp: PgConnect_connection_def split: option.splits if_splits)

lemma run_body_success:
  assumes ok: "snd (run_body flow faults db) = None"
    and s: "Settings flow (workflow_settings (get_setting db (WF_KEY flow))) = Inr s"
  shows "(list_objs flow s (BATCH_LIMIT flow) = [] \<longrightarrow> fst (run_body flow faults db) = db)
     \<and> (list_objs flow s (BATCH_LIMIT flow) \<noteq> [] \<longrightarrow>
          (\<exists>m ns. py_max (obj_lt flow) (list_objs flow s (BATCH_LIMIT flow)) = Some m
             \<and> Settings flow (obj_dict flow m) = Inr ns
             \<and> fst (run_body flow faults db) =
                 save_setting (db\<lparr>dest := foldl (insert_obj flow) (dest db) (list_objs flow s (BATCH_LIMIT flow))\<rparr>)
                   (WF_KEY flow) (settings_dict flow ns)))"
  using ok s
  by (auto simp: run_body_def Let_def split: if_splits prod.splits option.splits sum.splits
        dest!: insert_each_ok)


lemma OrderObj_lt_key: "OrderObj_lt = (\<lambda>a b. OrderObj_key a < OrderObj_key b)"
  by (intro ext) (simp add: OrderObj_lt_def)

lemma ProductSaleObj_lt_key: "ProductSaleObj_lt = (\<lambda>a b. ProductSaleObj_key a < ProductSaleObj_key b)"
  by (intro ext) (simp add: ProductSaleObj_lt_def)

lemma OrderSettings_of_order:
  "OrderSettings_init (OrderObj_dict m) = Inr \<lparr>last_loaded_ts = update_ts m, last_loaded_oid = object_id m\<rparr>"
  by (simp add: OrderSettings_init_def OrderObj_dict_def field_value_def populate_def)

lemma ProductSaleSettings_of_sale:
  "ProductSaleSettings_init (ProductSaleObj_dict m)
     = Inr \<lparr>sale_last_loaded_ts = event_ts m, last_loaded_product_id = product_id m\<rparr>"
  by (simp add: ProductSaleSettings_init_def ProductSaleObj_dict_def field_value_def populate_def)

lemma run_success:
  assumes ok: "snd (run flow faults db) = None"
    and s: "Settings flow (workflow_settings (get_setting db (WF_KEY flow))) = Inr s"
  shows "(list_objs flow s (BATCH_LIMIT flow) = [] \<longrightarrow> fst (run flow faults db) = db)
     \<and> (list_objs flow s (BATCH_LIMIT flow) \<noteq> [] \<longrightarrow>
          (\<exists>m ns. py_max (obj_lt flow) (list_objs flow s (BATCH_LIMIT flow)) = Some m
             \<and> Settings flow (obj_dict flow m) = Inr ns
             \<and> fst (run flow faults db) =
                 save_setting (db\<lparr>dest := foldl (insert_obj flow) (dest db) (list_objs flow s (BATCH_LIMIT flow))\<rparr>)
                   (WF_KEY flow) (settings_dict flow ns)))"
proof -
  obtain view e where b: "run_body flow faults db = (view, e)"
    by (cases "run_body flow faults db")
  from ok b have e: "e = None" and c: "\<not> commit_raises faults"
    and sc: "\<not> source_commit_raises faults"
    by (auto simp: run_def PgConnect_connection_def split: option.splits if_splits)
  from b e c sc have r: "fst (run flow faults db) = fst (run_body flow faults db)"
    by (simp add: run_def PgConnect_connection_def)
  from b e have "snd (run_body flow faults db) = None" by simp
  from run_body_success [OF this s] show ?thesis unfolding r .
qed

text \<open>
  What a run that completes hands to \<^verbatim>\<open>save_setting\<close>. The run read the checkpoint as
  \<open>s\<close> and the filtered batch \<open>list_orders source s 5000\<close>. When the batch is empty the
  run leaves the database as it found it: no record written, no checkpoint saved. When
  it is not empty, the run wrote every record of the batch and then called
  \<^verbatim>\<open>save_setting\<close> with the settings made of the comparison key
  \<^verbatim>\<open>(update_ts, object_id)\<close> of \<open>m\<close>, where \<open>m\<close> is what \<^verbatim>\<open>max\<close> finds: a record of the
  batch that no record of the batch exceeds in the order of \<^verbatim>\<open>__lt__\<close>. The same for
  the product sales loader with \<^verbatim>\<open>(event_ts, product_id)\<close>.
\<close>

lemma completed_run_saves_settings_of_max_record:
  "(OrderSettings_init (workflow_settings (get_setting db ''orders_stg_to_dds_workflow'')) = Inr s
      \<and> snd (OrdersLoader_run source faults db) = None
    \<longrightarrow> (list_orders source s 5000 = [] \<longrightarrow> fst (OrdersLoader_run source faults db) = db)
      \<and> (list_orders source s 5000 \<noteq> [] \<longrightarrow>
          (\<exists>m. py_max OrderObj_lt (list_orders source s 5000) = Some m
             \<and> m \<in> set (list_orders source s 5000)
             \<and> (\<forall>x\<in>set (list_orders source s 5000). OrderObj_key x \<le> OrderObj_key m)
             \<and> fst (OrdersLoader_run source faults db) =
                 save_setting (db\<lparr>dest := foldl insert_order (dest db) (list_orders source s 5000)\<rparr>)
                   ''orders_stg_to_dds_workflow''
                   (OrderSettings_dict \<lparr>last_loaded_ts = update_ts m, last_loaded_oid = object_id m\<rparr>))))
   \<and> (ProductSaleSettings_init
         (workflow_settings (get_setting sdb ''product_sales_stg_to_dds_workflow'')) = Inr ss
      \<and> snd (ProductSalesLoader_run float_mul sales sfaults sdb) = None
    \<longrightarrow> (list_sales sales ss 10000 = [] \<longrightarrow> fst (ProductSalesLoader_run float_mul sales sfaults sdb) = sdb)
      \<and> (list_sales sales ss 10000 \<noteq> [] \<longrightarrow>
          (\<exists>m. py_max ProductSaleObj_lt (list_sales sales ss 10000) = Some m
             \<and> m \<in> set (list_sales sales ss 10000)
             \<and> (\<forall>x\<in>set (list_sales sales ss 10000). ProductSaleObj_key x \<le> ProductSaleObj_key m)
             \<and> fst (ProductSalesLoader_run float_mul sales sfaults sdb) =
                 save_setting
                   (sdb\<lparr>dest := foldl (insert_sale float_mul) (dest sdb) (list_sales sales ss 10000)\<rparr>)
                   ''product_sales_stg_to_dds_workflow''
                   (ProductSaleSettings_dict
                      \<lparr>sale_last_loaded_ts = event_ts m, last_loaded_product_id = product_id m\<rparr>))))"
proof (intro conjI impI; elim conjE)
  assume s: "OrderSettings_init (workflow_settings (get_setting db ''orders_stg_to_dds_workflow'')) = Inr s"
    and ok: "snd (OrdersLoader_run source faults db) = None"
  note r = run_success [of "OrdersToDdsWorkflow source" faults db s,
      unfolded OrdersLoader_run_def [symmetric], simplified OrdersToDdsWorkflow_def, simplified,
      folded OrdersToDdsWorkflow_def OrdersLoader_run_def]
  show "list_orders source s 5000 = [] \<Longrightarrow> fst (OrdersLoader_run source faults db) = db"
    using r ok s by (simp add: OrdersLoader_run_def)
  show "\<exists>m. py_max OrderObj_lt (list_orders source s 5000) = Some m
             \<and> m \<in> set (list_orders source s 5000)
             \<and> (\<forall>x\<in>set (list_orders source s 5000). OrderObj_key x \<le> OrderObj_key m)
             \<and> fst (OrdersLoader_run source faults db) =
                 save_setting (db\<lparr>dest := foldl insert_order (dest db) (list_orders source s 5000)\<rparr>)
                   ''orders_stg_to_dds_workflow''
                   (OrderSettings_dict \<lparr>last_loaded_ts = update_ts m, last_loaded_oid = object_id m\<rparr>)"
    if q: "list_orders source s 5000 \<noteq> []"
  proof -
    from py_max_key [OF q, of OrderObj_key] obtain m where
      m: "py_max OrderObj_lt (list_orders source s 5000) = Some m"
         "m \<in> set (list_orders source s 5000)"
         "\<forall>y\<in>set (list_orders source s 5000). OrderObj_key y \<le> OrderObj_key m"
      unfolding OrderObj_lt_key by blast
    from r ok s q m(1) have "fst (OrdersLoader_run source faults db) =
        save_setting (db\<lparr>dest := foldl insert_order (dest db) (list_orders source s 5000)\<rparr>)
          ''orders_stg_to_dds_workflow''
          (OrderSettings_dict \<lparr>last_loaded_ts = update_ts m, last_loaded_oid = object_id m\<rparr>)"
      by (auto simp: OrdersLoader_run_def OrderSettings_of_order)
    with m show ?thesis by blast
  qed
next
  assume s: "ProductSaleSettings_init
         (workflow_settings (get_setting sdb ''product_sales_stg_to_dds_workflow'')) = Inr ss"
    and ok: "snd (ProductSalesLoader_run float_mul sales sfaults sdb) = None"
  note r = run_success [of "ProductSalesToDdsWorkflow float_mul sales" sfaults sdb ss,
      simplified ProductSalesToDdsWorkflow_def, simplified, folded ProductSalesToDdsWorkflow_def]
  show "list_sales sales ss 10000 = [] \<Longrightarrow> fst (ProductSalesLoader_run float_mul sales sfaults sdb) = sdb"
    using r ok s by (simp add: ProductSalesLoader_run_def)
  show "\<exists>m. py_max ProductSaleObj_lt (list_sales sales ss 10000) = Some m
             \<and> m \<in> set (list_sales sales ss 10000)
             \<and> (\<forall>x\<in>set (list_sales sales ss 10000). ProductSaleObj_key x \<le> ProductSaleObj_key m)
             \<and> fst (ProductSalesLoader_run float_mul sales sfaults sdb) =
                 save_setting
                   (sdb\<lparr>dest := foldl (insert_sale float_mul) (dest sdb) (list_sales sales ss 10000)\<rparr>)
                   ''product_sales_stg_to_dds_workflow''
                   (ProductSaleSettings_dict
                      \<lparr>sale_last_loaded_ts = event_ts m, last_loaded_product_id = product_id m\<rparr>)"
    if q: "list_sales sales ss 10000 \<noteq> []"
  proof -
    from py_max_key [OF q, of ProductSaleObj_key] obtain m where
      m: "py_max ProductSaleObj_lt (list_sales sales ss 10000) = Some m"
         "m \<in> set (list_sales sales ss 10000)"
         "\<forall>y\<in>set (list_sales sales ss 10000). ProductSaleObj_key y \<le> ProductSaleObj_key m"
      unfolding ProductSaleObj_lt_key by blast
    from r ok s q m(1) have "fst (ProductSalesLoader_run float_mul sales sfaults sdb) =
        save_setting
          (sdb\<lparr>dest := foldl (insert_sale float_mul) (dest sdb) (list_sales sales ss 10000)\<rparr>)
          ''product_sales_stg_to_dds_workflow''
          (ProductSaleSettings_dict
             \<lparr>sale_last_loaded_ts = event_ts m, last_loaded_product_id = product_id m\<rparr>)"
      by (auto simp: ProductSalesLoader_run_def ProductSaleSettings_of_sale)
    with m show ?thesis by blast
  qed
qed


lemma run_completes:
  assumes "\<not> get_setting_raises faults" "\<not> list_raises faults" "\<not> save_setting_raises faults"
    "\<not> commit_raises faults" "\<not> source_commit_raises faults"
    "\<forall>r\<in>set q. \<not> insert_raises faults r"
    and "Settings flow (workflow_settings (get_setting db (WF_KEY flow))) = Inr s"
    and "list_objs flow s (BATCH_LIMIT flow) = q" "q \<noteq> []"
    and "py_max (obj_lt flow) q = Some m" "Settings flow (obj_dict flow m) = Inr ns"
  shows "run flow faults db =
           (save_setting (db\<lparr>dest := foldl (insert_obj flow) (dest db) q\<rparr>) (WF_KEY flow)
              (settings_dict flow ns), None)"
  using assms
  by (simp add: run_def PgConnect_connection_def run_body_def Let_def insert_each_no_raise)

lemma run_empty_queue:
  assumes "\<not> get_setting_raises faults" "\<not> list_raises faults" "\<not> commit_raises faults"
    "\<not> source_commit_raises faults"
    and "Settings flow (workflow_settings (get_setting db (WF_KEY flow))) = Inr s"
    and "list_objs flow s (BATCH_LIMIT flow) = []"
  shows "run flow faults db = (db, None)"
  using assms by (simp add: run_def PgConnect_connection_def run_body_def Let_def)

lemma run_raises:
  "snd (run_body flow faults db) = Some e \<Longrightarrow>
   run flow faults db = (rollback db (fst (run_body flow faults db)), Some e)"
  by (simp add: run_def connection_error)

lemma run_rolls_back:
  "snd (run_body flow faults db) = Some e \<Longrightarrow>
   snd (run flow faults db) = Some e \<and> same_rows (fst (run flow faults db)) db"
  by (simp add: run_raises)

lemma run_unchanged_on_error:
  "snd (run flow faults db) \<noteq> None \<Longrightarrow> \<not> source_commit_raises faults \<Longrightarrow>
   same_rows (fst (run flow faults db)) db"
  using connection_unchanged_on_error [of "commit_raises faults" db "run_body flow faults"]
  by (cases "PgConnect_connection (commit_raises faults) db (run_body flow faults)")
     (auto simp: run_def split: option.splits)

lemma run_source_commit_raises:
  "snd (run_body flow faults db) = None \<Longrightarrow> \<not> commit_raises faults \<Longrightarrow>
   source_commit_raises faults \<Longrightarrow>
   run flow faults db = (fst (run_body flow faults db), Some DatabaseError)"
  by (cases "run_body flow faults db") (simp add: run_def PgConnect_connection_def)

lemma run_body_get_setting_raises:
  "get_setting_raises faults \<Longrightarrow> snd (run_body flow faults db) = Some DatabaseError"
  by (simp add: run_body_def)

lemma run_body_settings_invalid:
  "\<not> get_setting_raises faults \<Longrightarrow>
   Settings flow (workflow_settings (get_setting db (WF_KEY flow))) = Inl e \<Longrightarrow>
   snd (run_body flow faults db) = Some e"
  by (simp add: run_body_def Let_def)

lemma run_body_list_raises:
  "\<not> get_setting_raises faults \<Longrightarrow>
   Settings flow (workflow_settings (get_setting db (WF_KEY flow))) = Inr s \<Longrightarrow>
   list_raises faults \<Longrightarrow> snd (run_body flow faults db) = Some DatabaseError"
  by (simp add: run_body_def Let_def)

lemma run_body_insert_raises:
  assumes "\<not> get_setting_raises faults"
    "Settings flow (workflow_settings (get_setting db (WF_KEY flow))) = Inr s"
    "\<not> list_raises faults" "\<exists>r\<in>set (list_objs flow s (BATCH_LIMIT flow)). insert_raises faults r"
  shows "snd (run_body flow faults db) = Some DatabaseError"
proof -
  let ?q = "list_objs flow s (BATCH_LIMIT flow)"
  obtain d e where ie:
    "insert_each (insert_obj flow) (insert_raises faults) (failed_insert faults) (dest db) ?q = (d, e)"
    by (cases "insert_each (insert_obj flow) (insert_raises faults) (failed_insert faults) (dest db) ?q")
  with insert_each_raise [OF assms(4), of "insert_obj flow" "failed_insert faults" "dest db"]
  have e: "e = Some DatabaseError" by simp
  from assms(4) have "?q \<noteq> []" by auto
  with assms(1-3) ie e show ?thesis by (simp add: run_body_def Let_def)
qed

lemma run_body_save_setting_raises:
  assumes "\<not> get_setting_raises faults"
    "Settings flow (workflow_settings (get_setting db (WF_KEY flow))) = Inr s"
    "\<not> list_raises faults" "list_objs flow s (BATCH_LIMIT flow) \<noteq> []"
    "\<forall>r\<in>set (list_objs flow s (BATCH_LIMIT flow)). \<not> insert_raises faults r"
    "save_setting_raises faults"
    "\<And>r. \<exists>ns. Settings flow (obj_dict flow r) = Inr ns"
  shows "snd (run_body flow faults db) = Some DatabaseError"
proof -
  let ?q = "list_objs flow s (BATCH_LIMIT flow)"
  obtain x xs where q: "?q = x # xs" using assms(4) by (cases ?q) auto
  then obtain m where m: "py_max (obj_lt flow) ?q = Some m" by simp
  obtain ns where ns: "Settings flow (obj_dict flow m) = Inr ns" using assms(7) by blast
  from assms(1-6) m ns show ?thesis
    by (simp add: run_body_def Let_def insert_each_no_raise)
qed

lemma run_commit_raises:
  "snd (run_body flow faults db) = None \<Longrightarrow> commit_raises faults \<Longrightarrow>
   snd (run flow faults db) = Some DatabaseError \<and> same_rows (fst (run flow faults db)) db"
  by (cases "run_body flow faults db") (simp add: run_def PgConnect_connection_def)

lemma get_setting_empty_pg [simp]: "workflow_settings (get_setting empty_pg k) = []"
  by (simp add: get_setting_def empty_pg_def empty_table_def)

lemma OrderSettings_init_Nil:
  "OrderSettings_init [] = Inr \<lparr>last_loaded_ts = datetime_min, last_loaded_oid = zero_oid\<rparr>"
  by (simp add: OrderSettings_init_def field_value_def populate_def)

lemma ProductSaleSettings_init_Nil:
  "ProductSaleSettings_init [] = Inr \<lparr>sale_last_loaded_ts = datetime_min, last_loaded_product_id = zero_oid\<rparr>"
  by (simp add: ProductSaleSettings_init_def field_value_def populate_def)

lemmas sample_defs = order_at_def sale_at_def at_second_def datetime_min_def zero_oid_def
  datetime_key_def OrderObj_key_def ProductSaleObj_key_def

lemmas orders_read_defs = list_orders_def select_orders_def order_after_def orders_gap_filter_def
  order_fks_ok_def py_all_def

lemmas sales_read_defs = list_sales_def select_sales_def sale_after_def sales_gap_filter_def
  sale_fks_ok_def py_all_def

lemma sample_list_orders:
  "list_orders
     [order_at 12 ''b'' (Some 7) (Some 3) (Some 9), order_at 11 ''a'' (Some 7) (Some 3) (Some 9),
      order_at 13 ''c'' (Some 7) None (Some 9)]
     \<lparr>last_loaded_ts = datetime_min, last_loaded_oid = zero_oid\<rparr> 5000
   = [order_at 11 ''a'' (Some 7) (Some 3) (Some 9), order_at 12 ''b'' (Some 7) (Some 3) (Some 9)]"
  by (simp add: orders_read_defs sample_defs)

lemma sample_max_order:
  "py_max OrderObj_lt
     [order_at 11 ''a'' (Some 7) (Some 3) (Some 9), order_at 12 ''b'' (Some 7) (Some 3) (Some 9)]
   = Some (order_at 12 ''b'' (Some 7) (Some 3) (Some 9))"
  by (simp add: OrderObj_lt_def sample_defs)

lemma no_faults_fields:
  "\<not> get_setting_raises no_faults" "\<not> list_raises no_faults" "\<not> insert_raises no_faults r"
  "\<not> raises_after_nextval no_faults" "\<not> save_setting_raises no_faults"
  "\<not> commit_raises no_faults" "\<not> source_commit_raises no_faults"
  by (simp_all add: no_faults_def)

lemma order_at_fields:
  "object_id (order_at n oid u r t) = oid" "update_ts (order_at n oid u r t) = at_second n 0"
  "final_status (order_at n oid u r t) = ''CLOSED''" "user_fk (order_at n oid u r t) = u"
  "restaurant_fk (order_at n oid u r t) = r" "timestamp_fk (order_at n oid u r t) = t"
  by (simp_all add: order_at_def)

text \<open>What \<^verbatim>\<open>get_setting\<close> finds after \<^verbatim>\<open>save_setting\<close>, and the blob of an orders watermark.\<close>

lemma get_setting_after_save:
  "workflow_settings (get_setting (save_setting db k d) k) = json2str d"
  by (simp add: get_setting_def save_setting_def insert_do_update_def Let_def split: option.splits)

lemma dest_of_save_setting: "dest (save_setting conn k d) = dest conn"
  by (simp add: save_setting_def)

lemma json2str_OrderSettings_dict:
  "json2str (OrderSettings_dict \<lparr>last_loaded_ts = ts, last_loaded_oid = oid\<rparr>)
     = [(''last_loaded_oid'', PyStr oid), (''last_loaded_ts'', PyStr (strftime_datetime ts))]"
  by (simp add: json2str_def to_dict_def OrderSettings_dict_def)

lemma rows_insert_order_same: "rows (insert_order t order) (object_id order)
     = Some (case rows t (object_id order) of None \<Rightarrow> last_id t + 1 | Some (i, old) \<Rightarrow> i,
             final_status order, user_fk order, restaurant_fk order, timestamp_fk order)"
  by (cases "rows t (object_id order)") (auto simp: insert_order_def insert_do_update_def Let_def)

lemma last_order_is_written:
  assumes "q \<noteq> []"
  shows "\<exists>row_id. rows (foldl insert_order d q) (object_id (last q))
           = Some (row_id, final_status (last q), user_fk (last q), restaurant_fk (last q),
                   timestamp_fk (last q))"
proof -
  from assms have "q = butlast q @ [last q]" by simp
  then have "foldl insert_order d q = insert_order (foldl insert_order d (butlast q)) (last q)"
    by (metis foldl_append foldl_Cons foldl_Nil)
  then show ?thesis by (simp add: rows_insert_order_same)
qed

text \<open>
  Claim C3. Whenever the run of the orders loader ends in an exception raised inside
  the scope of the destination connection, the rows of the destination table and the
  rows of the checkpoint table are the ones committed before the run; this is spelled
  out for each place where the run can raise: reading the checkpoint, validating it,
  reading the batch, writing a record (records before it were already written in the
  transaction), saving the checkpoint (every record was already written) and the
  destination's commit itself. When none of these raises and the batch is not empty,
  the committed database holds the rows written for the batch, among them the row of
  the last record with that record's columns, and in the same commit the checkpoint
  row of the loader, whose blob is the object id of the maximum record and its time as
  the serializer writes it. The exception raised outside the destination's scope, by
  the commit of the source connection, comes after that commit: rows and checkpoint
  stay, together.
\<close>

theorem connection_scope_is_all_or_nothing:
  "(snd (OrdersLoader_run source faults db) \<noteq> None \<and> \<not> source_commit_raises faults
      \<longrightarrow> same_rows (fst (OrdersLoader_run source faults db)) db)
   \<and> (get_setting_raises faults
      \<longrightarrow> snd (OrdersLoader_run source faults db) = Some DatabaseError
        \<and> same_rows (fst (OrdersLoader_run source faults db)) db)
   \<and> (\<not> get_setting_raises faults
        \<and> OrderSettings_init (workflow_settings (get_setting db ''orders_stg_to_dds_workflow'')) = Inl e
      \<longrightarrow> snd (OrdersLoader_run source faults db) = Some e
        \<and> same_rows (fst (OrdersLoader_run source faults db)) db)
   \<and> (\<not> get_setting_raises faults
        \<and> OrderSettings_init (workflow_settings (get_setting db ''orders_stg_to_dds_workflow'')) = Inr s
      \<longrightarrow> (list_raises faults
           \<longrightarrow> snd (OrdersLoader_run source faults db) = Some DatabaseError
             \<and> same_rows (fst (OrdersLoader_run source faults db)) db)
        \<and> (\<not> list_raises faults \<and> (\<exists>r\<in>set (list_orders source s 5000). insert_raises faults r)
           \<longrightarrow> snd (OrdersLoader_run source faults db) = Some DatabaseError
             \<and> same_rows (fst (OrdersLoader_run source faults db)) db)
        \<and> (\<not> list_raises faults \<and> list_orders source s 5000 \<noteq> []
            \<and> (\<forall>r\<in>set (list_orders source s 5000). \<not> insert_raises faults r)
            \<and> save_setting_raises faults
           \<longrightarrow> snd (OrdersLoader_run source faults db) = Some DatabaseError
             \<and> same_rows (fst (OrdersLoader_run source faults db)) db)
        \<and> (\<not> list_raises faults \<and> list_orders source s 5000 \<noteq> []
            \<and> (\<forall>r\<in>set (list_orders source s 5000). \<not> insert_raises faults r)
            \<and> \<not> save_setting_raises faults \<and> commit_raises faults
           \<longrightarrow> snd (OrdersLoader_run source faults db) = Some DatabaseError
             \<and> same_rows (fst (OrdersLoader_run source faults db)) db)
        \<and> (\<not> list_raises faults \<and> list_orders source s 5000 \<noteq> []
            \<and> (\<forall>r\<in>set (list_orders source s 5000). \<not> insert_raises faults r)
            \<and> \<not> save_setting_raises faults \<and> \<not> commit_raises faults
           \<longrightarrow> (\<exists>m row_id setting_id.
                   py_max OrderObj_lt (list_orders source s 5000) = Some m
                 \<and> snd (OrdersLoader_run source faults db)
                     = (if source_commit_raises faults then Some DatabaseError else None)
                 \<and> rows (dest (fst (OrdersLoader_run source faults db)))
                     = rows (foldl insert_order (dest db) (list_orders source s 5000))
                 \<and> rows (dest (fst (OrdersLoader_run source faults db)))
                       (object_id (last (list_orders source s 5000)))
                     = Some (row_id, final_status (last (list_orders source s 5000)),
                             user_fk (last (list_orders source s 5000)),
                             restaurant_fk (last (list_orders source s 5000)),
                             timestamp_fk (last (list_orders source s 5000)))
                 \<and> rows (srv_wf_settings (fst (OrdersLoader_run source faults db)))
                     = (rows (srv_wf_settings db))
                         (''orders_stg_to_dds_workflow'' \<mapsto>
                            (setting_id,
                             [(''last_loaded_oid'', PyStr (object_id m)),
                              (''last_loaded_ts'', PyStr (strftime_datetime (update_ts m)))])))))"
proof -
  let ?flow = "OrdersToDdsWorkflow source"
  let ?q = "list_orders source s 5000"
  let ?R = "OrdersLoader_run source faults db"
  have key [simp]: "WF_KEY ?flow = ''orders_stg_to_dds_workflow''"
    and lim [simp]: "BATCH_LIMIT ?flow = 5000"
    and st [simp]: "Settings ?flow = OrderSettings_init"
    and li [simp]: "list_objs ?flow = list_orders source"
    and ins [simp]: "insert_obj ?flow = insert_order"
    and lt [simp]: "obj_lt ?flow = OrderObj_lt"
    and od [simp]: "obj_dict ?flow = OrderObj_dict"
    and sd [simp]: "settings_dict ?flow = OrderSettings_dict"
    by (simp_all add: OrdersToDdsWorkflow_def)
  have 1: "same_rows (fst ?R) db"
    if "snd ?R \<noteq> None \<and> \<not> source_commit_raises faults"
    using that unfolding OrdersLoader_run_def using run_unchanged_on_error [of ?flow faults db]
    by blast
  have 2: "snd ?R = Some DatabaseError \<and> same_rows (fst ?R) db" if "get_setting_raises faults"
    unfolding OrdersLoader_run_def
    using run_rolls_back [OF run_body_get_setting_raises, of faults ?flow db] that by blast
  have 3: "snd ?R = Some e \<and> same_rows (fst ?R) db"
    if "\<not> get_setting_raises faults"
      "OrderSettings_init (workflow_settings (get_setting db ''orders_stg_to_dds_workflow'')) = Inl e"
    unfolding OrdersLoader_run_def
    using run_rolls_back [OF run_body_settings_invalid, of faults ?flow db e] that by simp
  have 4: "snd ?R = Some DatabaseError \<and> same_rows (fst ?R) db"
    if "\<not> get_setting_raises faults"
      "OrderSettings_init (workflow_settings (get_setting db ''orders_stg_to_dds_workflow'')) = Inr s"
      "list_raises faults"
    unfolding OrdersLoader_run_def
    using run_rolls_back [OF run_body_list_raises, of faults ?flow db s] that by simp
  have 5: "snd ?R = Some DatabaseError \<and> same_rows (fst ?R) db"
    if "\<not> get_setting_raises faults"
      "OrderSettings_init (workflow_settings (get_setting db ''orders_stg_to_dds_workflow'')) = Inr s"
      "\<not> list_raises faults" "\<exists>r\<in>set ?q. insert_raises faults r"
    unfolding OrdersLoader_run_def
    using run_rolls_back [OF run_body_insert_raises, of faults ?flow db s] that by simp
  have 6: "snd ?R = Some DatabaseError \<and> same_rows (fst ?R) db"
    if "\<not> get_setting_raises faults"
      "OrderSettings_init (workflow_settings (get_setting db ''orders_stg_to_dds_workflow'')) = Inr s"
      "\<not> list_raises faults" "?q \<noteq> []" "\<forall>r\<in>set ?q. \<not> insert_raises faults r"
      "save_setting_raises faults"
    unfolding OrdersLoader_run_def
    using run_rolls_back [OF run_body_save_setting_raises, of faults ?flow db s] that
    by (simp add: OrderSettings_of_order)
  have body: "\<exists>m. py_max OrderObj_lt ?q = Some m
      \<and> run_body ?flow faults db =
          (save_setting (db\<lparr>dest := foldl insert_order (dest db) ?q\<rparr>)
             ''orders_stg_to_dds_workflow''
             (OrderSettings_dict \<lparr>last_loaded_ts = update_ts m, last_loaded_oid = object_id m\<rparr>),
           None)"
    if a: "\<not> get_setting_raises faults"
      "OrderSettings_init (workflow_settings (get_setting db ''orders_stg_to_dds_workflow'')) = Inr s"
      "\<not> list_raises faults" "?q \<noteq> []" "\<forall>r\<in>set ?q. \<not> insert_raises faults r"
      "\<not> save_setting_raises faults"
  proof -
    from a(4) obtain x xs where "?q = x # xs" by (cases ?q) auto
    then obtain m where m: "py_max OrderObj_lt ?q = Some m" by simp
    from a m have "run_body ?flow faults db =
          (save_setting (db\<lparr>dest := foldl insert_order (dest db) ?q\<rparr>)
             ''orders_stg_to_dds_workflow''
             (OrderSettings_dict \<lparr>last_loaded_ts = update_ts m, last_loaded_oid = object_id m\<rparr>),
           None)"
      by (simp add: run_body_def Let_def insert_each_no_raise OrderSettings_of_order
            del: py_max.simps)
    with m show ?thesis by blast
  qed
  have 7: "snd ?R = Some DatabaseError \<and> same_rows (fst ?R) db"
    if a: "\<not> get_setting_raises faults"
      "OrderSettings_init (workflow_settings (get_setting db ''orders_stg_to_dds_workflow'')) = Inr s"
      "\<not> list_raises faults" "?q \<noteq> []" "\<forall>r\<in>set ?q. \<not> insert_raises faults r"
      "\<not> save_setting_raises faults" "commit_raises faults"
  proof -
    from body [OF a(1-6)] have "snd (run_body ?flow faults db) = None" by auto
    from run_commit_raises [OF this a(7)] show ?thesis by (simp add: OrdersLoader_run_def)
  qed
  have 8: "\<exists>m row_id setting_id.
                   py_max OrderObj_lt ?q = Some m
                 \<and> snd ?R = (if source_commit_raises faults then Some DatabaseError else None)
                 \<and> rows (dest (fst ?R)) = rows (foldl insert_order (dest db) ?q)
                 \<and> rows (dest (fst ?R)) (object_id (last ?q))
                     = Some (row_id, final_status (last ?q), user_fk (last ?q),
                             restaurant_fk (last ?q), timestamp_fk (last ?q))
                 \<and> rows (srv_wf_settings (fst ?R))
                     = (rows (srv_wf_settings db))
                         (''orders_stg_to_dds_workflow'' \<mapsto>
                            (setting_id,
                             [(''last_loaded_oid'', PyStr (object_id m)),
                              (''last_loaded_ts'', PyStr (strftime_datetime (update_ts m)))]))"
    if a: "\<not> get_setting_raises faults"
      "OrderSettings_init (workflow_settings (get_setting db ''orders_stg_to_dds_workflow'')) = Inr s"
      "\<not> list_raises faults" "?q \<noteq> []" "\<forall>r\<in>set ?q. \<not> insert_raises faults r"
      "\<not> save_setting_raises faults" "\<not> commit_raises faults"
  proof -
    let ?written = "db\<lparr>dest := foldl insert_order (dest db) ?q\<rparr>"
    from body [OF a(1-6)] obtain m where m: "py_max OrderObj_lt ?q = Some m"
      and b: "run_body ?flow faults db =
          (save_setting ?written ''orders_stg_to_dds_workflow''
             (OrderSettings_dict \<lparr>last_loaded_ts = update_ts m, last_loaded_oid = object_id m\<rparr>),
           None)"
      by blast
    let ?saved = "save_setting ?written ''orders_stg_to_dds_workflow''
             (OrderSettings_dict \<lparr>last_loaded_ts = update_ts m, last_loaded_oid = object_id m\<rparr>)"
    from b a(7) have r: "?R = (?saved, if source_commit_raises faults then Some DatabaseError else None)"
      by (simp add: OrdersLoader_run_def run_def PgConnect_connection_def)
    have d: "rows (dest ?saved) = rows (foldl insert_order (dest db) ?q)"
      by (simp add: dest_of_save_setting)
    from last_order_is_written [OF a(4), of "dest db"] obtain row_id where
      l: "rows (foldl insert_order (dest db) ?q) (object_id (last ?q))
           = Some (row_id, final_status (last ?q), user_fk (last ?q), restaurant_fk (last ?q),
                   timestamp_fk (last ?q))"
      by blast
    have "\<exists>setting_id. rows (srv_wf_settings ?saved)
           = (rows (srv_wf_settings db))
               (''orders_stg_to_dds_workflow'' \<mapsto>
                  (setting_id,
                   [(''last_loaded_oid'', PyStr (object_id m)),
                    (''last_loaded_ts'', PyStr (strftime_datetime (update_ts m)))]))"
      by (cases "rows (srv_wf_settings db) ''orders_stg_to_dds_workflow''")
         (auto simp: save_setting_def insert_do_update_def Let_def json2str_OrderSettings_dict)
    then obtain setting_id where
      w: "rows (srv_wf_settings ?saved)
           = (rows (srv_wf_settings db))
               (''orders_stg_to_dds_workflow'' \<mapsto>
                  (setting_id,
                   [(''last_loaded_oid'', PyStr (object_id m)),
                    (''last_loaded_ts'', PyStr (strftime_datetime (update_ts m)))]))"
      by blast
    from m r d l w show ?thesis by (simp del: py_max.simps) blast
  qed
  show ?thesis
    apply (intro conjI impI)
            apply (rule 1, assumption)
           apply (rule 2 [THEN conjunct1], assumption)
          apply (rule 2 [THEN conjunct2], assumption)
         apply (rule 3 [THEN conjunct1], blast, blast)
        apply (rule 3 [THEN conjunct2], blast, blast)
       apply (rule 4 [THEN conjunct1], blast, blast, blast)
      apply (rule 4 [THEN conjunct2], blast, blast, blast)
     apply (rule 5 [THEN conjunct1], blast, blast, blast, blast)
    apply (rule 5 [THEN conjunct2], blast, blast, blast, blast)
    apply (rule 6 [THEN conjunct1], blast, blast, blast, blast, blast, blast)
    apply (rule 6 [THEN conjunct2], blast, blast, blast, blast, blast, blast)
    apply (rule 7 [THEN conjunct1], blast, blast, blast, blast, blast, blast, blast)
    apply (rule 7 [THEN conjunct2], blast, blast, blast, blast, blast, blast, blast)
    apply (rule 8, blast, blast, blast, blast, blast, blast, blast)
    done
qed


theorem connection_scope_witness:
  "snd (OrdersLoader_run
     [order_at 12 ''b'' (Some 7) (Some 3) (Some 9), order_at 11 ''a'' (Some 7) (Some 3) (Some 9),
      order_at 13 ''c'' (Some 7) None (Some 9)] second_insert_raises empty_pg)
     = Some DatabaseError
   \<and> rows (dest (fst (run_body
        (OrdersToDdsWorkflow
          [order_at 12 ''b'' (Some 7) (Some 3) (Some 9), order_at 11 ''a'' (Some 7) (Some 3) (Some 9),
           order_at 13 ''c'' (Some 7) None (Some 9)]) second_insert_raises empty_pg))) ''a''
     = Some (1, ''CLOSED'', Some 7, Some 3, Some 9)
   \<and> rows (dest (fst (OrdersLoader_run
        [order_at 12 ''b'' (Some 7) (Some 3) (Some 9), order_at 11 ''a'' (Some 7) (Some 3) (Some 9),
         order_at 13 ''c'' (Some 7) None (Some 9)] second_insert_raises empty_pg))) = Map.empty
   \<and> rows (srv_wf_settings (fst (OrdersLoader_run
        [order_at 12 ''b'' (Some 7) (Some 3) (Some 9), order_at 11 ''a'' (Some 7) (Some 3) (Some 9),
         order_at 13 ''c'' (Some 7) None (Some 9)] second_insert_raises empty_pg))) = Map.empty
   \<and> last_id (dest (fst (OrdersLoader_run
        [order_at 12 ''b'' (Some 7) (Some 3) (Some 9), order_at 11 ''a'' (Some 7) (Some 3) (Some 9),
         order_at 13 ''c'' (Some 7) None (Some 9)] second_insert_raises empty_pg))) = 2
   \<and> snd (OrdersLoader_run
        [order_at 12 ''b'' (Some 7) (Some 3) (Some 9), order_at 11 ''a'' (Some 7) (Some 3) (Some 9),
         order_at 13 ''c'' (Some 7) None (Some 9)] no_faults empty_pg) = None
   \<and> rows (dest (fst (OrdersLoader_run
        [order_at 12 ''b'' (Some 7) (Some 3) (Some 9), order_at 11 ''a'' (Some 7) (Some 3) (Some 9),
         order_at 13 ''c'' (Some 7) None (Some 9)] no_faults empty_pg))) ''a''
     = Some (1, ''CLOSED'', Some 7, Some 3, Some 9)
   \<and> rows (dest (fst (OrdersLoader_run
        [order_at 12 ''b'' (Some 7) (Some 3) (Some 9), order_at 11 ''a'' (Some 7) (Some 3) (Some 9),
         order_at 13 ''c'' (Some 7) None (Some 9)] no_faults empty_pg))) ''b''
     = Some (2, ''CLOSED'', Some 7, Some 3, Some 9)
   \<and> (\<exists>setting_id. rows (srv_wf_settings (fst (OrdersLoader_run
        [order_at 12 ''b'' (Some 7) (Some 3) (Some 9), order_at 11 ''a'' (Some 7) (Some 3) (Some 9),
         order_at 13 ''c'' (Some 7) None (Some 9)] no_faults empty_pg))) ''orders_stg_to_dds_workflow''
     = Some (setting_id,
             [(''last_loaded_oid'', PyStr ''b''), (''last_loaded_ts'', PyStr ''2022-01-01 10:00:12'')]))
   \<and> rows (dest (fst (OrdersLoader_run
        [order_at 12 ''b'' (Some 7) (Some 3) (Some 9), order_at 11 ''a'' (Some 7) (Some 3) (Some 9),
         order_at 13 ''c'' (Some 7) None (Some 9)] no_faults
        (fst (OrdersLoader_run
           [order_at 12 ''b'' (Some 7) (Some 3) (Some 9), order_at 11 ''a'' (Some 7) (Some 3) (Some 9),
            order_at 13 ''c'' (Some 7) None (Some 9)] second_insert_raises empty_pg)))))
     = [''a'' \<mapsto> (3, ''CLOSED'', Some 7, Some 3, Some 9),
        ''b'' \<mapsto> (4, ''CLOSED'', Some 7, Some 3, Some 9)]"
proof -
  let ?src = "[order_at 12 ''b'' (Some 7) (Some 3) (Some 9), order_at 11 ''a'' (Some 7) (Some 3) (Some 9),
      order_at 13 ''c'' (Some 7) None (Some 9)]"
  let ?s0 = "\<lparr>last_loaded_ts = datetime_min, last_loaded_oid = zero_oid\<rparr>"
  let ?R1 = "OrdersLoader_run ?src second_insert_raises empty_pg"
  let ?R2 = "OrdersLoader_run ?src no_faults empty_pg"
  have body: "run_body (OrdersToDdsWorkflow ?src) second_insert_raises empty_pg
      = (\<lparr>dest = \<lparr>rows = [''a'' \<mapsto> (1, ''CLOSED'', Some 7, Some 3, Some 9)], last_id = 2\<rparr>,
          srv_wf_settings = empty_table\<rparr>, Some DatabaseError)"
    by (simp add: run_body_def second_insert_raises_def no_faults_def OrdersToDdsWorkflow_def
          OrderSettings_init_Nil sample_list_orders Let_def failed_insert_def nextval_def)
       (simp add: order_at_def insert_order_def insert_do_update_def empty_pg_def empty_table_def)
  have view: "rows (dest (fst (run_body (OrdersToDdsWorkflow ?src) second_insert_raises empty_pg))) ''a''
     = Some (1, ''CLOSED'', Some 7, Some 3, Some 9)"
    by (simp add: body)
  have after: "fst ?R1 = \<lparr>dest = \<lparr>rows = Map.empty, last_id = 2\<rparr>, srv_wf_settings = empty_table\<rparr>"
    using run_raises [of "OrdersToDdsWorkflow ?src" second_insert_raises empty_pg DatabaseError]
    by (simp add: body OrdersLoader_run_def)
       (simp add: rollback_def rollback_table_def empty_pg_def empty_table_def)
  then have seq: "last_id (dest (fst ?R1)) = 2"
    by simp
  let ?db1 = "\<lparr>dest = \<lparr>rows = Map.empty, last_id = 2\<rparr>, srv_wf_settings = empty_table\<rparr> :: dm_orders pg"
  have no_row: "workflow_settings (get_setting ?db1 ''orders_stg_to_dds_workflow'') = []"
    by (simp add: get_setting_def empty_table_def)
  from connection_scope_is_all_or_nothing [of ?src no_faults ?db1 undefined ?s0]
  have retry: "rows (dest (fst (OrdersLoader_run ?src no_faults ?db1)))
      = rows (foldl insert_order (dest ?db1)
              [order_at 11 ''a'' (Some 7) (Some 3) (Some 9), order_at 12 ''b'' (Some 7) (Some 3) (Some 9)])"
    by (simp add: no_faults_fields order_at_fields no_row OrderSettings_init_Nil sample_list_orders
          sample_max_order del: py_max.simps foldl.simps)
  have ids: "rows (foldl insert_order (dest ?db1)
              [order_at 11 ''a'' (Some 7) (Some 3) (Some 9), order_at 12 ''b'' (Some 7) (Some 3) (Some 9)])
      = [''a'' \<mapsto> (3, ''CLOSED'', Some 7, Some 3, Some 9),
         ''b'' \<mapsto> (4, ''CLOSED'', Some 7, Some 3, Some 9)]"
    by (simp add: order_at_def insert_order_def insert_do_update_def)
  have next_run: "rows (dest (fst (OrdersLoader_run ?src no_faults (fst ?R1))))
      = [''a'' \<mapsto> (3, ''CLOSED'', Some 7, Some 3, Some 9),
         ''b'' \<mapsto> (4, ''CLOSED'', Some 7, Some 3, Some 9)]"
    unfolding after using retry ids by simp
  from connection_scope_is_all_or_nothing [of ?src second_insert_raises empty_pg undefined ?s0]
  have err: "snd ?R1 = Some DatabaseError \<and> same_rows (fst ?R1) empty_pg"
    by (simp add: second_insert_raises_def no_faults_def OrderSettings_init_Nil sample_list_orders
          del: py_max.simps)
       (simp add: order_at_def)
  then have none: "rows (dest (fst ?R1)) = Map.empty \<and> rows (srv_wf_settings (fst ?R1)) = Map.empty"
    by (simp add: same_rows_def empty_pg_def empty_table_def)
  from connection_scope_is_all_or_nothing [of ?src no_faults empty_pg undefined ?s0]
  have ok: "\<exists>setting_id. snd ?R2 = None
      \<and> rows (dest (fst ?R2))
          = rows (foldl insert_order (dest empty_pg)
              [order_at 11 ''a'' (Some 7) (Some 3) (Some 9), order_at 12 ''b'' (Some 7) (Some 3) (Some 9)])
      \<and> rows (srv_wf_settings (fst ?R2))
          = (rows (srv_wf_settings (empty_pg :: dm_orders pg)))
              (''orders_stg_to_dds_workflow'' \<mapsto>
                 (setting_id,
                  [(''last_loaded_oid'', PyStr ''b''),
                   (''last_loaded_ts'', PyStr (strftime_datetime (at_second 12 0)))]))"
    by (simp add: no_faults_fields order_at_fields OrderSettings_init_Nil sample_list_orders
          sample_max_order del: py_max.simps)
  have fmt: "strftime_datetime (at_second 12 0) = ''2022-01-01 10:00:12''"
    by (simp add: strftime_datetime_def pad4_def pad2_def digit_char_def at_second_def)
  have written: "rows (insert_order
              (insert_order (dest empty_pg) (order_at 11 ''a'' (Some 7) (Some 3) (Some 9)))
              (order_at 12 ''b'' (Some 7) (Some 3) (Some 9)))
      = [''a'' \<mapsto> (1, ''CLOSED'', Some 7, Some 3, Some 9), ''b'' \<mapsto> (2, ''CLOSED'', Some 7, Some 3, Some 9)]"
    by (simp add: order_at_def insert_order_def insert_do_update_def empty_pg_def empty_table_def)
  from ok show ?thesis
    using err none seq view next_run by (auto simp: fmt written)
qed

section \<open>Properties of the readers\<close>

lemma fetch_pages_endpoint:
  "0 < page_size \<Longrightarrow> deliveries = take offset records \<Longrightarrow>
   take limit (fetch_pages (endpoint records) page_size limit offset deliveries) = take limit records"
proof (induction "endpoint records" page_size limit offset deliveries rule: fetch_pages.induct)
  case (1 page_size limit offset deliveries)
  let ?batch = "endpoint records offset page_size"
  show ?case
  proof (cases "offset < limit")
    case False
    then show ?thesis using "1.prems" by (subst fetch_pages.simps) (simp add: min_def)
  next
    case True
    show ?thesis
    proof (cases "?batch = []")
      case True
      with "1.prems"(1) have "length records \<le> offset"
        by (simp add: endpoint_def)
      with \<open>offset < limit\<close> True "1.prems" show ?thesis
        by (subst fetch_pages.simps) simp
    next
      case False
      have "deliveries @ ?batch = take (offset + length ?batch) records"
        using "1.prems"(2) by (simp add: endpoint_def take_add min_def)
      from "1.hyps" [OF True refl False "1.prems"(1) this] True False
      show ?thesis by (subst fetch_pages.simps) (simp add: Let_def)
    qed
  qed
qed

text \<open>
  Claim C6. Against an endpoint that serves an ordered sequence by offset and limit,
  the paginated reader returns the first \<open>limit\<close> records of the sequence, in order:
  for every page size greater than 0, and so for the loader's page size 50.
\<close>

theorem paginated_read_is_direct_read:
  "(0 < page_size \<longrightarrow> paginated_read (endpoint records) page_size limit = take limit records)
   \<and> list_deliveries (endpoint records) limit = take limit records"
  using fetch_pages_endpoint [of page_size "[]" 0 records limit]
        fetch_pages_endpoint [of 50 "[]" 0 records limit]
  by (simp add: paginated_read_def list_deliveries_def)

theorem paginated_read_witness:
  "paginated_read (endpoint [''d1'', ''d2'', ''d3'', ''d4'', ''d5'', ''d6'', ''d7'']) 2 5
     = [''d1'', ''d2'', ''d3'', ''d4'', ''d5'']"
  using paginated_read_is_direct_read [of 2 "[''d1'', ''d2'', ''d3'', ''d4'', ''d5'', ''d6'', ''d7'']" 5]
  by simp



lemma sorted_key_take: "sorted (map f xs) \<Longrightarrow> sorted (map f (take n xs))"
  by (simp add: take_map [symmetric] sorted_wrt_take)

lemma sorted_key_drop: "sorted (map f xs) \<Longrightarrow> sorted (map f (drop n xs))"
  by (simp add: drop_map [symmetric] sorted_wrt_drop)

lemma sorted_key_takeWhile: "sorted (map f xs) \<Longrightarrow> sorted (map f (takeWhile P xs))"
  by (simp add: sorted_map)

lemma order_after_iff:
  "order_after s oo \<longleftrightarrow> (datetime_key (last_loaded_ts s), last_loaded_oid s) < OrderObj_key oo"
  by (auto simp: order_after_def OrderObj_key_def)

lemma stg_order_after_iff:
  "stg_order_after s doc \<longleftrightarrow>
     (datetime_key (stg_last_loaded_ts s), stg_last_loaded_oid s) < StgOrderObj_key doc"
  by (auto simp: stg_order_after_def StgOrderObj_key_def)

lemma list_orders_props:
  "(\<forall>oo\<in>set (list_orders source s limit).
        (datetime_key (last_loaded_ts s), last_loaded_oid s) < OrderObj_key oo)
   \<and> sorted (map OrderObj_key (list_orders source s limit))
   \<and> length (list_orders source s limit) \<le> limit"
proof (intro conjI ballI)
  fix oo assume "oo \<in> set (list_orders source s limit)"
  then have "oo \<in> set (select_orders source s limit)"
    by (auto simp: list_orders_def orders_gap_filter_takeWhile dest: set_takeWhileD)
  then have "order_after s oo"
    by (auto simp: select_orders_def dest: in_set_takeD)
  then show "(datetime_key (last_loaded_ts s), last_loaded_oid s) < OrderObj_key oo"
    by (simp add: order_after_iff)
next
  show "sorted (map OrderObj_key (list_orders source s limit))"
    unfolding list_orders_def orders_gap_filter_takeWhile select_orders_def
    by (intro sorted_key_takeWhile sorted_key_take sorted_sort_key)
next
  have "length (list_orders source s limit) \<le> length (select_orders source s limit)"
    unfolding list_orders_def orders_gap_filter_takeWhile by (rule length_takeWhile_le)
  also have "\<dots> \<le> limit" by (simp add: select_orders_def)
  finally show "length (list_orders source s limit) \<le> limit" .
qed

lemma list_stg_orders_props:
  "(\<forall>doc\<in>set (list_stg_orders collection s limit).
        (datetime_key (stg_last_loaded_ts s), stg_last_loaded_oid s) < StgOrderObj_key doc)
   \<and> sorted (map StgOrderObj_key (list_stg_orders collection s limit))
   \<and> (0 < limit \<longrightarrow> length (list_stg_orders collection s limit) \<le> limit)"
  by (auto simp: list_stg_orders_def MongoReader_list_def Let_def stg_order_after_iff
        sorted_key_take sorted_sort_key dest: in_set_takeD)

lemma list_reports_props:
  "(\<forall>r\<in>set (list_reports source s offset limit).
        date_key (last_loaded_date s) \<le> date_key (report_date r))
   \<and> sorted (map (\<lambda>r. date_key (report_date r)) (list_reports source s offset limit))
   \<and> length (list_reports source s offset limit) \<le> limit"
proof (intro conjI ballI)
  fix r assume "r \<in> set (list_reports source s offset limit)"
  then have "r \<in> set (reports_from source s)"
    by (auto simp: list_reports_def dest: in_set_takeD in_set_dropD)
  then show "date_key (last_loaded_date s) \<le> date_key (report_date r)"
    by (simp add: reports_from_def)
next
  show "sorted (map (\<lambda>r. date_key (report_date r)) (list_reports source s offset limit))"
    unfolding list_reports_def reports_from_def
    by (intro sorted_key_take sorted_key_drop sorted_sort_key)
next
  show "length (list_reports source s offset limit) \<le> limit"
    by (simp add: list_reports_def)
qed

text \<open>
  Claim C4, as amended. The reader of the DDS orders loader and the reader of the
  staging orders loader return only records whose key \<^verbatim>\<open>(update_ts, id)\<close> is strictly
  greater than the watermark in the lexicographic order, ascending by that key; the
  first returns at most \<open>limit\<close> records for every limit, the second for every limit
  greater than 0 (the document store reads the limit 0 as no limit). The reader of
  the settlement report returns the records whose date is greater than \<^emph>\<open>or equal to\<close>
  the watermark, ascending by date, at most \<open>limit\<close> of them.
\<close>

theorem readers_return_ordered_bounded_batches:
  "(\<forall>oo\<in>set (list_orders source s limit).
        (datetime_key (last_loaded_ts s), last_loaded_oid s) < OrderObj_key oo)
   \<and> sorted (map OrderObj_key (list_orders source s limit))
   \<and> length (list_orders source s limit) \<le> limit
   \<and> (\<forall>doc\<in>set (list_stg_orders collection ss limit).
        (datetime_key (stg_last_loaded_ts ss), stg_last_loaded_oid ss) < StgOrderObj_key doc)
   \<and> sorted (map StgOrderObj_key (list_stg_orders collection ss limit))
   \<and> (0 < limit \<longrightarrow> length (list_stg_orders collection ss limit) \<le> limit)
   \<and> (\<forall>r\<in>set (list_reports reports rs offset limit).
        date_key (last_loaded_date rs) \<le> date_key (report_date r))
   \<and> sorted (map (\<lambda>r. date_key (report_date r)) (list_reports reports rs offset limit))
   \<and> length (list_reports reports rs offset limit) \<le> limit"
  using list_orders_props [of source s limit] list_stg_orders_props [of collection ss limit]
    list_reports_props [of reports rs offset limit]
  by blast


lemmas reports_read_defs = list_reports_def reports_from_def date_key_def report_on_def on_day_def

lemmas stg_read_defs = list_stg_orders_def MongoReader_list_def stg_order_after_def
  StgOrderObj_key_def stg_order_at_def

theorem readers_witness:
  "list_orders
     [order_at 12 ''b'' (Some 7) (Some 3) (Some 9), order_at 11 ''a'' (Some 7) (Some 3) (Some 9),
      order_at 13 ''c'' (Some 7) None (Some 9)]
     \<lparr>last_loaded_ts = datetime_min, last_loaded_oid = zero_oid\<rparr> 5000
     = [order_at 11 ''a'' (Some 7) (Some 3) (Some 9), order_at 12 ''b'' (Some 7) (Some 3) (Some 9)]
   \<and> (datetime_key datetime_min, zero_oid) < OrderObj_key (order_at 11 ''a'' (Some 7) (Some 3) (Some 9))
   \<and> OrderObj_key (order_at 11 ''a'' (Some 7) (Some 3) (Some 9))
       \<le> OrderObj_key (order_at 12 ''b'' (Some 7) (Some 3) (Some 9))
   \<and> list_stg_orders [stg_order_at 13 ''c'', stg_order_at 12 ''b'', stg_order_at 11 ''a'']
        \<lparr>stg_last_loaded_ts = at_second 11 0, stg_last_loaded_oid = ''a''\<rparr> 1
     = [stg_order_at 12 ''b'']
   \<and> list_reports [report_on 13 ''r'' 5, report_on 11 ''r'' 5, report_on 12 ''r'' 5]
        \<lparr>last_loaded_date = on_day 12\<rparr> 0 100
     = [report_on 12 ''r'' 5, report_on 13 ''r'' 5]"
  using readers_return_ordered_bounded_batches
    [of "[order_at 12 ''b'' (Some 7) (Some 3) (Some 9), order_at 11 ''a'' (Some 7) (Some 3) (Some 9),
          order_at 13 ''c'' (Some 7) None (Some 9)]"
        "\<lparr>last_loaded_ts = datetime_min, last_loaded_oid = zero_oid\<rparr>" 5000
        "[stg_order_at 13 ''c'', stg_order_at 12 ''b'', stg_order_at 11 ''a'']"
        "\<lparr>stg_last_loaded_ts = at_second 11 0, stg_last_loaded_oid = ''a''\<rparr>"
        "[report_on 13 ''r'' 5, report_on 11 ''r'' 5, report_on 12 ''r'' 5]"
        "\<lparr>last_loaded_date = on_day 12\<rparr>" 0]
  by (simp add: sample_list_orders) (simp add: sample_defs stg_read_defs reports_read_defs)

text \<open>
  Claim C4 as it is written fails for the settlement report's reader, which returns a
  record dated exactly at the watermark, and for the staging reader at the limit 0,
  which returns two records.
\<close>

theorem readers_counterexample:
  "list_reports [report_on 12 ''r'' 5] \<lparr>last_loaded_date = on_day 12\<rparr> 0 100 = [report_on 12 ''r'' 5]
   \<and> \<not> date_key (last_loaded_date \<lparr>last_loaded_date = on_day 12\<rparr>)
         < date_key (report_date (report_on 12 ''r'' 5))
   \<and> length (list_stg_orders [stg_order_at 13 ''c'', stg_order_at 12 ''b'']
        \<lparr>stg_last_loaded_ts = at_second 11 0, stg_last_loaded_oid = ''a''\<rparr> 0) = 2"
  by (simp add: sample_defs stg_read_defs reports_read_defs)


section \<open>Properties of the checkpoint store and the serializer\<close>


lemma CourierSettings_init_Nil: "CourierSettings_init [] = Inr \<lparr>last_loaded_id = - 1\<rparr>"
  by (simp add: CourierSettings_init_def field_value_def populate_def)

lemma RestaurantReportSettings_init_Nil:
  "RestaurantReportSettings_init [] = Inr \<lparr>last_loaded_date = date_min\<rparr>"
  by (simp add: RestaurantReportSettings_init_def field_value_def populate_def)








lemmas strftime_defs = strftime_datetime_def strftime_date_def pad4_def pad2_def digit_char_def

lemmas parse_defs = parse_datetime_def parse_date_def parse_fraction_def digits_at_def
  read_digits_def digits_value_def is_digit_def digit_val_def valid_ymd_def days_in_month_def
  is_leap_def

lemma sample_strftime: "strftime_datetime (at_second 12 500000) = ''2022-01-01 10:00:12''"
  by (simp add: strftime_defs at_second_def)

lemma sample_parse: "parse_datetime ''2022-01-01 10:00:12'' = Some (at_second 12 0)"
  by (simp add: parse_defs at_second_def)

lemma sample_parse_fraction: "parse_datetime ''2022-01-01T10:00:12.5'' = Some (at_second 12 500000)"
  by (simp add: parse_defs at_second_def)

text \<open>
  Claim C9, evaluated at a watermark whose time has half a second: the serializer
  writes the time to the second, and reading the blob back gives a watermark half a
  second earlier than the one that was saved.
\<close>

theorem watermark_roundtrip_loses_microseconds:
  "json2str (OrderSettings_dict \<lparr>last_loaded_ts = at_second 12 500000, last_loaded_oid = ''b''\<rparr>)
     = [(''last_loaded_oid'', PyStr ''b''), (''last_loaded_ts'', PyStr ''2022-01-01 10:00:12'')]
   \<and> OrderSettings_init
        (json2str (OrderSettings_dict \<lparr>last_loaded_ts = at_second 12 500000, last_loaded_oid = ''b''\<rparr>))
     = Inr \<lparr>last_loaded_ts = at_second 12 0, last_loaded_oid = ''b''\<rparr>
   \<and> at_second 12 0 \<noteq> at_second 12 500000"
proof -
  have j: "json2str (OrderSettings_dict \<lparr>last_loaded_ts = at_second 12 500000, last_loaded_oid = ''b''\<rparr>)
     = [(''last_loaded_oid'', PyStr ''b''), (''last_loaded_ts'', PyStr ''2022-01-01 10:00:12'')]"
    by (simp add: json2str_def to_dict_def OrderSettings_dict_def sample_strftime)
  show ?thesis
    unfolding j
    by (simp add: OrderSettings_init_def field_value_def populate_def sample_parse)
       (simp add: at_second_def)
qed


text \<open>
  What the checkpoint table holds under the key of the orders loader after a run that
  completed with a batch: the object id of the maximum record, and the time of that
  record as \<^verbatim>\<open>strftime("%Y-%m-%d %H:%M:%S")\<close> writes it.
\<close>

lemma orders_run_persists_formatted_key:
  assumes s: "OrderSettings_init (workflow_settings (get_setting db ''orders_stg_to_dds_workflow'')) = Inr s"
    and ok: "snd (OrdersLoader_run source faults db) = None"
    and q: "list_orders source s 5000 \<noteq> []"
  shows "\<exists>m. py_max OrderObj_lt (list_orders source s 5000) = Some m
      \<and> m \<in> set (list_orders source s 5000)
      \<and> (\<forall>x\<in>set (list_orders source s 5000). OrderObj_key x \<le> OrderObj_key m)
      \<and> workflow_settings
          (get_setting (fst (OrdersLoader_run source faults db)) ''orders_stg_to_dds_workflow'')
        = [(''last_loaded_oid'', PyStr (object_id m)),
           (''last_loaded_ts'', PyStr (strftime_datetime (update_ts m)))]"
proof -
  from completed_run_saves_settings_of_max_record [THEN conjunct1, of db s source faults] s ok q
  obtain m where m: "py_max OrderObj_lt (list_orders source s 5000) = Some m"
      "m \<in> set (list_orders source s 5000)"
      "\<forall>x\<in>set (list_orders source s 5000). OrderObj_key x \<le> OrderObj_key m"
    and r: "fst (OrdersLoader_run source faults db) =
        save_setting (db\<lparr>dest := foldl insert_order (dest db) (list_orders source s 5000)\<rparr>)
          ''orders_stg_to_dds_workflow''
          (OrderSettings_dict \<lparr>last_loaded_ts = update_ts m, last_loaded_oid = object_id m\<rparr>)"
    by blast
  have "workflow_settings
          (get_setting (fst (OrdersLoader_run source faults db)) ''orders_stg_to_dds_workflow'')
        = [(''last_loaded_oid'', PyStr (object_id m)),
           (''last_loaded_ts'', PyStr (strftime_datetime (update_ts m)))]"
    unfolding r by (simp add: get_setting_after_save json2str_OrderSettings_dict)
  with m show ?thesis by blast
qed

text \<open>
  Claim C2, evaluated at a batch of two orders whose maximum was updated at
  10:00:12.500000. The run completes and \<^verbatim>\<open>max\<close> finds that order, but the checkpoint
  row the run commits holds the time 10:00:12: the watermark a later run reads back is
  not the comparison key of the maximum record but a key half a second before it. The
  read that starts from the persisted watermark returns the maximum record once more.
\<close>

theorem persisted_watermark_is_behind_max_record:
  "snd (OrdersLoader_run
          [order_half_past ''b'', order_at 11 ''a'' (Some 7) (Some 3) (Some 9)] no_faults empty_pg)
     = None
   \<and> py_max OrderObj_lt
       (list_orders [order_half_past ''b'', order_at 11 ''a'' (Some 7) (Some 3) (Some 9)]
          \<lparr>last_loaded_ts = datetime_min, last_loaded_oid = zero_oid\<rparr> 5000)
     = Some (order_half_past ''b'')
   \<and> update_ts (order_half_past ''b'') = at_second 12 500000
   \<and> workflow_settings
       (get_setting
          (fst (OrdersLoader_run
                  [order_half_past ''b'', order_at 11 ''a'' (Some 7) (Some 3) (Some 9)]
                  no_faults empty_pg))
          ''orders_stg_to_dds_workflow'')
     = [(''last_loaded_oid'', PyStr ''b''), (''last_loaded_ts'', PyStr ''2022-01-01 10:00:12'')]
   \<and> OrderSettings_init
       [(''last_loaded_oid'', PyStr ''b''), (''last_loaded_ts'', PyStr ''2022-01-01 10:00:12'')]
     = Inr \<lparr>last_loaded_ts = at_second 12 0, last_loaded_oid = ''b''\<rparr>
   \<and> (datetime_key (at_second 12 0), ''b'') < OrderObj_key (order_half_past ''b'')
   \<and> list_orders [order_half_past ''b'', order_at 11 ''a'' (Some 7) (Some 3) (Some 9)]
       \<lparr>last_loaded_ts = at_second 12 0, last_loaded_oid = ''b''\<rparr> 5000
     = [order_half_past ''b'']"
proof -
  let ?src = "[order_half_past ''b'', order_at 11 ''a'' (Some 7) (Some 3) (Some 9)]"
  let ?s0 = "\<lparr>last_loaded_ts = datetime_min, last_loaded_oid = zero_oid\<rparr>"
  let ?q = "[order_at 11 ''a'' (Some 7) (Some 3) (Some 9), order_half_past ''b'']"
  have lst: "list_orders ?src ?s0 5000 = ?q"
    by (simp add: orders_read_defs sample_defs order_half_past_def)
  have mx: "py_max OrderObj_lt ?q = Some (order_half_past ''b'')"
    by (simp add: OrderObj_lt_def sample_defs order_half_past_def)
  have ts: "update_ts (order_half_past ''b'') = at_second 12 500000"
    and oid: "object_id (order_half_past ''b'') = ''b''"
    by (simp_all add: order_half_past_def)
  have r: "OrdersLoader_run ?src no_faults empty_pg
     = (save_setting (empty_pg\<lparr>dest := foldl insert_order (dest empty_pg) ?q\<rparr>)
          ''orders_stg_to_dds_workflow''
          (OrderSettings_dict \<lparr>last_loaded_ts = at_second 12 500000, last_loaded_oid = ''b''\<rparr>),
        None)"
    using run_completes
      [where flow = "OrdersToDdsWorkflow ?src" and faults = no_faults and db = empty_pg
        and s = ?s0 and q = ?q and m = "order_half_past ''b''"
        and ns = "\<lparr>last_loaded_ts = at_second 12 500000, last_loaded_oid = ''b''\<rparr>"]
    by (simp add: OrdersLoader_run_def OrdersToDdsWorkflow_def no_faults_fields
          OrderSettings_init_Nil lst mx OrderSettings_of_order ts oid del: py_max.simps foldl.simps)
  have blob: "workflow_settings
       (get_setting (fst (OrdersLoader_run ?src no_faults empty_pg)) ''orders_stg_to_dds_workflow'')
     = [(''last_loaded_oid'', PyStr ''b''), (''last_loaded_ts'', PyStr ''2022-01-01 10:00:12'')]"
    unfolding r
    by (simp add: get_setting_def save_setting_def insert_do_update_def Let_def empty_pg_def
          empty_table_def json2str_OrderSettings_dict sample_strftime del: foldl.simps)
  have reread: "OrderSettings_init
       [(''last_loaded_oid'', PyStr ''b''), (''last_loaded_ts'', PyStr ''2022-01-01 10:00:12'')]
     = Inr \<lparr>last_loaded_ts = at_second 12 0, last_loaded_oid = ''b''\<rparr>"
    by (simp add: OrderSettings_init_def field_value_def populate_def sample_parse)
  have behind: "(datetime_key (at_second 12 0), ''b'') < OrderObj_key (order_half_past ''b'')"
    by (simp add: OrderObj_key_def datetime_key_def at_second_def order_half_past_def)
  have again: "list_orders ?src \<lparr>last_loaded_ts = at_second 12 0, last_loaded_oid = ''b''\<rparr> 5000
     = [order_half_past ''b'']"
    by (simp add: orders_read_defs sample_defs order_half_past_def)
  from r have "snd (OrdersLoader_run ?src no_faults empty_pg) = None" by simp
  with lst mx ts blob reread behind again show ?thesis by (simp del: py_max.simps)
qed


section \<open>The slowly-changing writer, evaluated\<close>

lemmas scd_defs = insert_restaurant_def latest_id_def open_rows_def restaurant_v_def
  restaurant_row_def open_end_def at_second_def

text \<open>
  Claim C5, evaluated. Writing payload A for a new key inserts one open row. Writing
  payload B next closes that row and inserts nothing: the insert met the row while it
  was still open and did nothing. The key is left with no open row. A later write of
  payload C then moves the end of the closed row.
\<close>

theorem changed_payload_leaves_no_open_row:
  "insert_restaurant \<lparr>restaurant_rows = [], restaurant_last_id = 0\<rparr> (restaurant_v ''A'' 11)
     = Inr \<lparr>restaurant_rows = [restaurant_row 1 ''A'' (at_second 11 0) open_end],
            restaurant_last_id = 1\<rparr>
   \<and> insert_restaurant
       \<lparr>restaurant_rows = [restaurant_row 1 ''A'' (at_second 11 0) open_end], restaurant_last_id = 1\<rparr>
       (restaurant_v ''B'' 12)
     = Inr \<lparr>restaurant_rows = [restaurant_row 1 ''A'' (at_second 11 0) (at_second 12 0)],
            restaurant_last_id = 2\<rparr>
   \<and> open_rows
       \<lparr>restaurant_rows = [restaurant_row 1 ''A'' (at_second 11 0) (at_second 12 0)],
        restaurant_last_id = 2\<rparr> ''r'' = []
   \<and> insert_restaurant
       \<lparr>restaurant_rows = [restaurant_row 1 ''A'' (at_second 11 0) (at_second 12 0)],
        restaurant_last_id = 2\<rparr>
       (restaurant_v ''C'' 13)
     = Inr \<lparr>restaurant_rows =
              [restaurant_row 1 ''A'' (at_second 11 0) (at_second 13 0),
               restaurant_row 3 ''C'' (at_second 13 0) open_end],
            restaurant_last_id = 3\<rparr>"
  by (simp add: scd_defs)

section \<open>Running a loader twice\<close>

subsection \<open>The couriers loader, twice\<close>

lemma run_noop_on_empty_queue:
  assumes "Settings flow (workflow_settings (get_setting db (WF_KEY flow))) = Inr s"
    and "list_objs flow s (BATCH_LIMIT flow) = []"
  shows "fst (run flow faults db) = db"
proof -
  from assms have "fst (run_body flow faults db) = db"
    by (simp add: run_body_def Let_def)
  then show ?thesis
    by (cases "run_body flow faults db")
       (auto simp: run_def PgConnect_connection_def split: option.splits)
qed

lemma CourierObj_lt_key: "CourierObj_lt = (\<lambda>a b. c_id a < c_id b)"
  by (intro ext) (simp add: CourierObj_lt_def)

lemma CourierSettings_of_courier:
  "CourierSettings_init (CourierObj_dict m) = Inr \<lparr>last_loaded_id = c_id m\<rparr>"
  by (simp add: CourierSettings_init_def CourierObj_dict_def field_value_def populate_def)

lemma CourierSettings_reload:
  "CourierSettings_init (json2str (CourierSettings_dict s)) = Inr s"
  by (simp add: CourierSettings_init_def CourierSettings_dict_def json2str_def to_dict_def
        field_value_def populate_def)

lemma couriers_second_run_changes_nothing:
  assumes s: "CourierSettings_init (workflow_settings (get_setting db ''couriers_stg_to_dds_workflow'')) = Inr s"
    and ok: "snd (CouriersLoader_run source faults db) = None"
    and drained: "length (filter (\<lambda>c. c_id c > last_loaded_id s) source) \<le> 50"
  shows "fst (CouriersLoader_run source faults' (fst (CouriersLoader_run source faults db)))
           = fst (CouriersLoader_run source faults db)"
proof -
  let ?flow = "CouriersToStgWorkflow source"
  let ?q = "list_couriers source s 50"
  have f [simp]: "WF_KEY ?flow = ''couriers_stg_to_dds_workflow''" "BATCH_LIMIT ?flow = 50"
    "Settings ?flow = CourierSettings_init" "list_objs ?flow = list_couriers source"
    "insert_obj ?flow = insert_courier" "obj_lt ?flow = CourierObj_lt"
    "obj_dict ?flow = CourierObj_dict" "settings_dict ?flow = CourierSettings_dict"
    by (simp_all add: CouriersToStgWorkflow_def)
  note r = run_success [of ?flow faults db s, simplified]
  show ?thesis
  proof (cases "?q = []")
    case True
    with r ok s have 1: "fst (run ?flow faults db) = db" by (simp add: CouriersLoader_run_def)
    from run_noop_on_empty_queue [of ?flow db s faults'] s True
    have "fst (run ?flow faults' db) = db" by simp
    with 1 show ?thesis by (simp add: CouriersLoader_run_def)
  next
    case False
    from py_max_key [OF False, of c_id] obtain m where
      m: "py_max CourierObj_lt ?q = Some m" "m \<in> set ?q" "\<forall>y\<in>set ?q. c_id y \<le> c_id m"
      unfolding CourierObj_lt_key by blast
    let ?db1 = "save_setting (db\<lparr>dest := foldl insert_courier (dest db) ?q\<rparr>)
                  ''couriers_stg_to_dds_workflow'' (CourierSettings_dict \<lparr>last_loaded_id = c_id m\<rparr>)"
    from r ok s False m(1) have 1: "fst (run ?flow faults db) = ?db1"
      by (auto simp: CouriersLoader_run_def CourierSettings_of_courier)
    have s1: "CourierSettings_init (workflow_settings (get_setting ?db1 ''couriers_stg_to_dds_workflow''))
                = Inr \<lparr>last_loaded_id = c_id m\<rparr>"
      by (simp add: get_setting_after_save CourierSettings_reload)
    have all: "?q = sort_key c_id (filter (\<lambda>c. c_id c > last_loaded_id s) source)"
      using drained by (simp add: list_couriers_def)
    have "filter (\<lambda>c. c_id c > c_id m) source = []"
    proof (rule ccontr)
      assume "filter (\<lambda>c. c_id c > c_id m) source \<noteq> []"
      then obtain c where c: "c \<in> set source" "c_id c > c_id m"
        by (auto simp: filter_empty_conv)
      from m(2) all have "c_id m > last_loaded_id s" by auto
      with c have "c \<in> set ?q" unfolding all by auto
      with m(3) c(2) show False by auto
    qed
    then have q2: "list_couriers source \<lparr>last_loaded_id = c_id m\<rparr> 50 = []"
      by (simp add: list_couriers_def)
    from run_noop_on_empty_queue [of ?flow ?db1 "\<lparr>last_loaded_id = c_id m\<rparr>" faults'] s1 q2
    have "fst (run ?flow faults' ?db1) = ?db1" by simp
    with 1 show ?thesis by (simp add: CouriersLoader_run_def)
  qed
qed


subsection \<open>The settlement report loader, twice\<close>

lemma rows_insert_report_same:
  "rows (insert_report ops t r) (report_key r) =
     Some (case rows t (report_key r) of
             None \<Rightarrow> (last_id t + 1, report_restaurant_name r, report_figures ops r)
           | Some (i, n, old) \<Rightarrow> (i, n, report_figures ops r))"
  by (simp add: insert_report_def Let_def split: option.splits)

lemma rows_insert_report_other:
  "k \<noteq> report_key r \<Longrightarrow> rows (insert_report ops t r) k = rows t k"
  by (simp add: insert_report_def Let_def split: option.splits)

lemma last_figures_snoc:
  "last_figures ops (batch @ [r]) k =
     (if k = report_key r then Some (report_figures ops r) else last_figures ops batch k)"
  by (simp add: last_figures_def)

lemma last_figures_append:
  "last_figures ops (a @ b) k =
     (case last_figures ops b k of Some f \<Rightarrow> Some f | None \<Rightarrow> last_figures ops a k)"
  by (simp add: last_figures_def map_add_def split: option.splits)

lemma rows_foldl_existing:
  "rows t k = Some (i, n, f) \<Longrightarrow>
   rows (foldl (insert_report ops) t batch) k =
     Some (i, n, case last_figures ops batch k of None \<Rightarrow> f | Some f' \<Rightarrow> f')"
proof (induction batch rule: rev_induct)
  case Nil
  then show ?case by (simp add: last_figures_def)
next
  case (snoc r batch)
  then show ?case
    by (cases "k = report_key r")
       (simp_all add: last_figures_snoc rows_insert_report_same rows_insert_report_other)
qed

lemma rows_foldl_written:
  "last_figures ops batch k = Some f' \<Longrightarrow>
   \<exists>i n. rows (foldl (insert_report ops) t batch) k = Some (i, n, f')"
proof (induction batch arbitrary: f' rule: rev_induct)
  case Nil
  then show ?case by (simp add: last_figures_def)
next
  case (snoc r batch)
  show ?case
  proof (cases "k = report_key r")
    case True
    with snoc.prems have "f' = report_figures ops r" by (simp add: last_figures_snoc)
    with True show ?thesis
      by (cases "rows (foldl (insert_report ops) t batch) (report_key r)")
         (auto simp: rows_insert_report_same)
  next
    case False
    with snoc show ?thesis by (simp add: last_figures_snoc rows_insert_report_other)
  qed
qed

lemma rows_foldl_untouched:
  "last_figures ops batch k = None \<Longrightarrow> rows (foldl (insert_report ops) t batch) k = rows t k"
proof (induction batch rule: rev_induct)
  case Nil
  then show ?case by simp
next
  case (snoc r batch)
  then show ?case
    by (cases "k = report_key r") (simp_all add: last_figures_snoc rows_insert_report_other)
qed

lemma rewrite_suffix_keeps_rows:
  "rows (foldl (insert_report ops) (foldl (insert_report ops) t (a @ b)) b)
     = rows (foldl (insert_report ops) t (a @ b))"
proof
  fix k
  let ?t1 = "foldl (insert_report ops) t (a @ b)"
  show "rows (foldl (insert_report ops) ?t1 b) k = rows ?t1 k"
  proof (cases "last_figures ops b k")
    case None
    then show ?thesis by (rule rows_foldl_untouched)
  next
    case (Some f')
    then have "last_figures ops (a @ b) k = Some f'" by (simp add: last_figures_append)
    from rows_foldl_written [OF this, of t] obtain i n where 1: "rows ?t1 k = Some (i, n, f')"
      by blast
    from rows_foldl_existing [OF 1, of ops b] Some 1 show ?thesis by simp
  qed
qed

lemma page_then_rest: "take n xs @ drop (length (take n xs)) xs = xs"
proof (cases "n \<le> length xs")
  case True
  then show ?thesis by (simp add: min_def)
next
  case False
  then show ?thesis by simp
qed

lemma drop_page_split:
  "drop offset xs = take n (drop offset xs) @ drop (offset + length (take n (drop offset xs))) xs"
proof -
  have "drop (offset + length (take n (drop offset xs))) xs
          = drop (length (take n (drop offset xs))) (drop offset xs)"
    by (simp add: add.commute)
  then show ?thesis using page_then_rest [of n "drop offset xs"] by simp
qed

lemma drain_reports_writes:
  "0 < limit \<Longrightarrow>
   fst (drain_reports ops source s limit offset lst t)
     = foldl (insert_report ops) t (drop offset (reports_from source s))"
proof (induction ops source s limit offset lst t rule: drain_reports.induct)
  case (1 ops source s limit offset lst t)
  let ?L = "reports_from source s"
  let ?q = "list_reports source s offset limit"
  show ?case
  proof (cases "?q = []")
    case True
    with "1.prems" have "drop offset ?L = []" by (simp add: list_reports_def)
    with True show ?thesis by (subst drain_reports.simps) simp
  next
    case False
    have split: "drop offset ?L = ?q @ drop (offset + length ?q) ?L"
      unfolding list_reports_def by (rule drop_page_split)
    have "fst (drain_reports ops source s limit offset lst t)
            = fst (drain_reports ops source s limit (offset + length ?q)
                     (py_max RestaurantReportObj_lt ?q) (foldl (insert_report ops) t ?q))"
      using False by (subst drain_reports.simps) (simp add: Let_def)
    also have "\<dots> = foldl (insert_report ops) (foldl (insert_report ops) t ?q)
                         (drop (offset + length ?q) ?L)"
      by (rule "1.IH" [OF refl False "1.prems"])
    also have "\<dots> = foldl (insert_report ops) t (?q @ drop (offset + length ?q) ?L)"
      by simp
    also have "\<dots> = foldl (insert_report ops) t (drop offset ?L)"
      using split by simp
    finally show ?thesis .
  qed
qed


lemma RestaurantReportObj_lt_key:
  "RestaurantReportObj_lt = (\<lambda>a b. date_key (report_date a) < date_key (report_date b))"
  by (intro ext) (simp add: RestaurantReportObj_lt_def)

lemma sorted_reports_from: "sorted (map (\<lambda>r. date_key (report_date r)) (reports_from source s))"
  unfolding reports_from_def by (rule sorted_sort_key)

lemma key_le_last:
  assumes "sorted (map f xs)" "x \<in> set xs"
  shows "f x \<le> f (last xs)"
proof -
  from assms(2) have ne: "xs \<noteq> []" by auto
  then have xs: "xs = butlast xs @ [last xs]" by simp
  with assms(1) have "sorted (map f (butlast xs @ [last xs]))" by simp
  then have "\<forall>a\<in>set (butlast xs). f a \<le> f (last xs)"
    by (simp add: sorted_append)
  moreover from assms(2) xs have "x \<in> set (butlast xs) \<or> x = last xs"
    by (metis Un_iff empty_iff empty_set insert_iff list.simps(15) set_append)
  ultimately show ?thesis by auto
qed

lemma drain_reports_last:
  "0 < limit \<Longrightarrow>
   (drop offset (reports_from source s) = [] \<longrightarrow>
      snd (drain_reports ops source s limit offset lst t) = lst)
   \<and> (drop offset (reports_from source s) \<noteq> [] \<longrightarrow>
      (\<exists>r. snd (drain_reports ops source s limit offset lst t) = Some r
         \<and> r \<in> set (reports_from source s)
         \<and> date_key (report_date r) = date_key (report_date (last (reports_from source s)))))"
proof (induction ops source s limit offset lst t rule: drain_reports.induct)
  case (1 ops source s limit offset lst t)
  let ?L = "reports_from source s"
  let ?K = "\<lambda>r. date_key (report_date r)"
  let ?q = "list_reports source s offset limit"
  let ?D = "drop offset ?L"
  let ?D' = "drop (offset + length ?q) ?L"
  show ?case
  proof (cases "?D = []")
    case True
    then have "?q = []" by (simp add: list_reports_def)
    with True show ?thesis by (subst drain_reports.simps) simp
  next
    case False
    with "1.prems" have q: "?q \<noteq> []" by (simp add: list_reports_def)
    have step: "snd (drain_reports ops source s limit offset lst t)
            = snd (drain_reports ops source s limit (offset + length ?q)
                     (py_max RestaurantReportObj_lt ?q) (foldl (insert_report ops) t ?q))"
      using q by (subst drain_reports.simps) (simp add: Let_def)
    note IH = "1.IH" [OF refl q "1.prems"]
    from py_max_key [OF q, of ?K] obtain m where
      m: "py_max RestaurantReportObj_lt ?q = Some m" "m \<in> set ?q" "\<forall>y\<in>set ?q. ?K y \<le> ?K m"
      unfolding RestaurantReportObj_lt_key by blast
    have split: "?D = ?q @ ?D'"
      unfolding list_reports_def by (rule drop_page_split)
    show ?thesis
    proof (cases "?D' = []")
      case True
      with IH m(1) step have r: "snd (drain_reports ops source s limit offset lst t) = Some m"
        by simp
      from split True have "?q = ?D" by simp
      with m(2) have mL: "m \<in> set ?L" by (auto dest: in_set_dropD)
      have "last ?L = last ?D" using False by simp
      also have "\<dots> = last ?q" using \<open>?q = ?D\<close> by simp
      finally have "last ?L \<in> set ?q" using q by simp
      with m(3) have "?K (last ?L) \<le> ?K m" by blast
      moreover from key_le_last [OF sorted_reports_from mL] have "?K m \<le> ?K (last ?L)" .
      ultimately have "?K m = ?K (last ?L)" by simp
      with r mL False show ?thesis by blast
    next
      case D': False
      with IH step False show ?thesis by simp
    qed
  qed
qed

lemma length_pad2 [simp]: "length (pad2 n) = 2"
  by (simp add: pad2_def)

lemma length_pad4 [simp]: "length (pad4 n) = 4"
  by (simp add: pad4_def)

lemma digit_roundtrip:
  "n < 10 \<Longrightarrow> digit_val (digit_char n) = n \<and> is_digit (digit_char n)"
proof -
  assume "n < 10"
  then have "n = 0 \<or> n = 1 \<or> n = 2 \<or> n = 3 \<or> n = 4 \<or> n = 5 \<or> n = 6 \<or> n = 7 \<or> n = 8 \<or> n = 9"
    by arith
  then show ?thesis by (auto simp: digit_val_def digit_char_def is_digit_def)
qed

lemma pad2_digits: "list_all is_digit (pad2 n)"
  by (simp add: pad2_def digit_roundtrip)

lemma pad2_value: "n < 100 \<Longrightarrow> digits_value (pad2 n) = n"
proof -
  assume "n < 100"
  then have "n div 10 < 10" by simp
  then have "n div 10 mod 10 = n div 10" by simp
  then show ?thesis by (simp add: digits_value_def pad2_def digit_roundtrip)
qed

lemma read_pad2: "n < 100 \<Longrightarrow> read_digits (pad2 n) = Some n"
  using pad2_digits [of n] by (simp add: read_digits_def pad2_value) (simp add: pad2_def)

lemma read_pad4: "n < 10000 \<Longrightarrow> read_digits (pad4 n) = Some n"
proof -
  assume n: "n < 10000"
  then have a: "n div 100 < 100" by simp
  then have a': "n div 100 mod 100 = n div 100" by simp
  have b: "n mod 100 < 100" by simp
  have "digits_value (pad4 n) = 100 * digits_value (pad2 (n div 100)) + digits_value (pad2 (n mod 100))"
    by (simp add: digits_value_def pad4_def pad2_def a')
  then have "digits_value (pad4 n) = n"
    using pad2_value [OF a] pad2_value [OF b] by simp
  moreover have "list_all is_digit (pad4 n)"
    by (simp add: pad4_def pad2_digits)
  moreover have "pad4 n \<noteq> []"
    by (simp add: pad4_def pad2_def)
  ultimately show ?thesis by (simp add: read_digits_def)
qed

lemma parse_strftime_date: "valid_date d \<Longrightarrow> parse_date (strftime_date d) = Some d"
proof -
  assume v: "valid_date d"
  let ?s = "strftime_date d"
  from v have y: "date_year d < 10000" and m: "date_month d < 100" and dd: "date_day d < 100"
    by (auto simp: valid_date_def valid_ymd_def days_in_month_def split: if_splits)
  have len: "length ?s = 10" by (simp add: strftime_date_def)
  have s4: "?s ! 4 = CHR ''-''" and s7: "?s ! 7 = CHR ''-''"
    by (simp_all add: strftime_date_def nth_append)
  have f1: "digits_at ?s 0 4 = Some (date_year d)"
    by (simp add: digits_at_def strftime_date_def read_pad4 [OF y])
  have f2: "digits_at ?s 5 2 = Some (date_month d)"
    by (simp add: digits_at_def strftime_date_def read_pad2 [OF m])
  have f3: "digits_at ?s 8 2 = Some (date_day d)"
    by (simp add: digits_at_def strftime_date_def read_pad2 [OF dd])
  from v show ?thesis
    unfolding parse_date_def by (simp add: len s4 s7 f1 f2 f3 valid_date_def)
qed


lemma date_key_inject: "date_key a = date_key b \<Longrightarrow> a = b"
  by (cases a; cases b) (simp add: date_key_def)

lemma RestaurantReportSettings_of_report:
  "RestaurantReportSettings_init (RestaurantReportObj_dict r) = Inr \<lparr>last_loaded_date = report_date r\<rparr>"
  by (simp add: RestaurantReportSettings_init_def RestaurantReportObj_dict_def field_value_def
        populate_def)

lemma RestaurantReportSettings_reload:
  "valid_date (last_loaded_date s) \<Longrightarrow>
   RestaurantReportSettings_init (json2str (RestaurantReportSettings_dict s)) = Inr s"
  by (simp add: RestaurantReportSettings_init_def RestaurantReportSettings_dict_def json2str_def
        to_dict_def field_value_def populate_def parse_strftime_date)

lemma report_run_nothing_to_load:
  assumes "RestaurantReportSettings_init
             (workflow_settings (get_setting db ''settlement_report_dds_to_cdm_workflow'')) = Inr s"
    and "reports_from source s = []"
  shows "SettlementReportLoader_run ops source db = (db, None)"
proof -
  have "drain_reports ops source s 100 0 None (dest db) = (dest db, None)"
    using assms(2) by (subst drain_reports.simps) (simp add: list_reports_def)
  with assms(1) show ?thesis
    by (simp add: SettlementReportLoader_run_def PgConnect_connection_def
          SettlementReportLoader_body_def Let_def)
qed

lemma report_run_loads_all:
  assumes "RestaurantReportSettings_init
             (workflow_settings (get_setting db ''settlement_report_dds_to_cdm_workflow'')) = Inr s"
    and "reports_from source s \<noteq> []"
  shows "\<exists>r. r \<in> set (reports_from source s)
           \<and> date_key (report_date r) = date_key (report_date (last (reports_from source s)))
           \<and> SettlementReportLoader_run ops source db =
               (save_setting
                  (db\<lparr>dest := foldl (insert_report ops) (dest db) (reports_from source s)\<rparr>)
                  ''settlement_report_dds_to_cdm_workflow''
                  (RestaurantReportSettings_dict \<lparr>last_loaded_date = report_date r\<rparr>), None)"
proof -
  let ?dr = "drain_reports ops source s 100 0 None (dest db)"
  from drain_reports_writes [of 100 ops source s 0 None "dest db"]
  have w: "fst ?dr = foldl (insert_report ops) (dest db) (reports_from source s)" by simp
  from drain_reports_last [of 100 0 source s ops None "dest db"] assms(2)
  obtain r where r: "snd ?dr = Some r" "r \<in> set (reports_from source s)"
    "date_key (report_date r) = date_key (report_date (last (reports_from source s)))"
    by auto
  from w r(1) have "?dr = (foldl (insert_report ops) (dest db) (reports_from source s), Some r)"
    by (cases ?dr) simp
  with assms(1) have "SettlementReportLoader_run ops source db =
               (save_setting
                  (db\<lparr>dest := foldl (insert_report ops) (dest db) (reports_from source s)\<rparr>)
                  ''settlement_report_dds_to_cdm_workflow''
                  (RestaurantReportSettings_dict \<lparr>last_loaded_date = report_date r\<rparr>), None)"
    by (simp add: SettlementReportLoader_run_def PgConnect_connection_def
          SettlementReportLoader_body_def Let_def RestaurantReportSettings_of_report)
  with r show ?thesis by blast
qed

lemma sorted_split_at_key:
  fixes f :: "'a \<Rightarrow> 'k::linorder"
  shows "sorted (map f xs) \<Longrightarrow> xs = filter (\<lambda>x. f x < k) xs @ filter (\<lambda>x. k \<le> f x) xs"
proof (induction xs)
  case Nil
  then show ?case by simp
next
  case (Cons a xs)
  then have le: "\<forall>y\<in>set xs. f a \<le> f y" and IH: "xs = filter (\<lambda>x. f x < k) xs @ filter (\<lambda>x. k \<le> f x) xs"
    by simp_all
  show ?case
  proof (cases "f a < k")
    case True
    with IH show ?thesis by (simp add: not_le)
  next
    case False
    with le have "\<forall>y\<in>set xs. k \<le> f y" by auto
    then have "filter (\<lambda>x. f x < k) xs = []" "filter (\<lambda>x. k \<le> f x) xs = xs"
      by (auto simp: filter_empty_conv not_less filter_id_conv)
    with False show ?thesis by (simp add: not_less)
  qed
qed

lemma rows_insert_do_update_same:
  "rows t k = Some (i, v) \<Longrightarrow> rows (insert_do_update t k v) = rows t"
  by (auto simp: insert_do_update_def Let_def)

lemma rows_after_save_setting:
  "\<exists>i. rows (srv_wf_settings (save_setting db k d)) k = Some (i, json2str d)"
  by (simp add: save_setting_def insert_do_update_def Let_def split: option.splits)

lemma dest_save_setting [simp]: "dest (save_setting db k d) = dest db"
  by (simp add: save_setting_def)

lemma report_second_run_keeps_rows:
  assumes s: "RestaurantReportSettings_init
             (workflow_settings (get_setting db ''settlement_report_dds_to_cdm_workflow'')) = Inr s"
    and valid: "\<forall>r\<in>set source. valid_date (report_date r)"
  shows "snd (SettlementReportLoader_run ops source db) = None
     \<and> snd (SettlementReportLoader_run ops source (fst (SettlementReportLoader_run ops source db))) = None
     \<and> rows (dest (fst (SettlementReportLoader_run ops source
                          (fst (SettlementReportLoader_run ops source db)))))
         = rows (dest (fst (SettlementReportLoader_run ops source db)))
     \<and> rows (srv_wf_settings (fst (SettlementReportLoader_run ops source
                          (fst (SettlementReportLoader_run ops source db)))))
         = rows (srv_wf_settings (fst (SettlementReportLoader_run ops source db)))"
proof (cases "reports_from source s = []")
  case True
  from report_run_nothing_to_load [OF s True, of ops] show ?thesis by simp
next
  case False
  let ?K = "\<lambda>r. date_key (report_date r)"
  let ?key = "''settlement_report_dds_to_cdm_workflow''"
  let ?L0 = "reports_from source s"
  from report_run_loads_all [OF s False, of ops] obtain r where
    r: "r \<in> set ?L0" "?K r = ?K (last ?L0)"
    and run1: "SettlementReportLoader_run ops source db =
               (save_setting (db\<lparr>dest := foldl (insert_report ops) (dest db) ?L0\<rparr>) ?key
                  (RestaurantReportSettings_dict \<lparr>last_loaded_date = report_date r\<rparr>), None)"
    by blast
  let ?s1 = "\<lparr>last_loaded_date = report_date r\<rparr>"
  let ?db1 = "save_setting (db\<lparr>dest := foldl (insert_report ops) (dest db) ?L0\<rparr>) ?key
                (RestaurantReportSettings_dict ?s1)"
  let ?L1 = "reports_from source ?s1"
  from r(1) have r_src: "r \<in> set source" by (auto simp: reports_from_def)
  with valid have vr: "valid_date (report_date r)" by blast
  have s1: "RestaurantReportSettings_init (workflow_settings (get_setting ?db1 ?key)) = Inr ?s1"
    using vr by (simp add: get_setting_after_save RestaurantReportSettings_reload)
  from r(1) have k0: "date_key (last_loaded_date s) \<le> ?K r" by (auto simp: reports_from_def)
  have "filter (\<lambda>x. ?K r \<le> ?K x) source
          = filter (\<lambda>x. ?K r \<le> ?K x) (filter (\<lambda>x. date_key (last_loaded_date s) \<le> ?K x) source)"
    using k0 by (auto intro!: filter_cong)
  then have L1: "?L1 = filter (\<lambda>x. ?K r \<le> ?K x) ?L0"
    by (simp add: reports_from_def filter_sort)
  from sorted_split_at_key [OF sorted_reports_from, of source s "?K r"] L1
  have split: "?L0 = filter (\<lambda>x. ?K x < ?K r) ?L0 @ ?L1" by simp
  from r(1) L1 have ne1: "?L1 \<noteq> []" by (auto simp: filter_empty_conv)
  from report_run_loads_all [OF s1 ne1, of ops] obtain r2 where
    r2: "r2 \<in> set ?L1" "?K r2 = ?K (last ?L1)"
    and run2: "SettlementReportLoader_run ops source ?db1 =
               (save_setting (?db1\<lparr>dest := foldl (insert_report ops) (dest ?db1) ?L1\<rparr>) ?key
                  (RestaurantReportSettings_dict \<lparr>last_loaded_date = report_date r2\<rparr>), None)"
    by blast
  have "?K r2 = ?K r"
  proof (rule antisym)
    from r2(1) L1 have "r2 \<in> set ?L0" by auto
    from key_le_last [OF sorted_reports_from this] r(2) show "?K r2 \<le> ?K r" by simp
    from r2(1) L1 show "?K r \<le> ?K r2" by auto
  qed
  then have same: "report_date r2 = report_date r" by (rule date_key_inject)
  have rows_dest: "rows (foldl (insert_report ops) (foldl (insert_report ops) (dest db) ?L0) ?L1)
                     = rows (foldl (insert_report ops) (dest db) ?L0)"
    using rewrite_suffix_keeps_rows [of ops "dest db" "filter (\<lambda>x. ?K x < ?K r) ?L0" ?L1] split
    by simp
  from rows_after_save_setting [of "db\<lparr>dest := foldl (insert_report ops) (dest db) ?L0\<rparr>" ?key
      "RestaurantReportSettings_dict ?s1"]
  obtain i where i: "rows (srv_wf_settings ?db1) ?key = Some (i, json2str (RestaurantReportSettings_dict ?s1))"
    by blast
  have rows_set: "rows (srv_wf_settings
                    (save_setting (?db1\<lparr>dest := foldl (insert_report ops) (dest ?db1) ?L1\<rparr>) ?key
                       (RestaurantReportSettings_dict ?s1)))
                  = rows (srv_wf_settings ?db1)"
    using rows_insert_do_update_same [OF i] by (simp add: save_setting_def)
  show ?thesis
    unfolding run1 fst_conv snd_conv run2 same
    using rows_dest rows_set by simp
qed


text \<open>
  Claim C7, as amended. Couriers loader (one batch per run): when the first run
  completed and its read was not cut by the batch limit, that is, the source held at
  most 50 couriers beyond the watermark the run started from, a second run over the
  same source leaves the whole database as the first run left it, whatever happens
  in the second run. Settlement report loader (drains the source in one run): over a
  source with valid dates from the year 1000 on, the first and the second run
  complete, and the second, which reads the last loaded day again, leaves the rows of
  the report table and the rows of the checkpoint table as the first run left them
  (the id sequences advance).
\<close>

theorem second_run_changes_nothing_when_drained:
  "(CourierSettings_init (workflow_settings (get_setting db ''couriers_stg_to_dds_workflow'')) = Inr s
      \<and> snd (CouriersLoader_run source faults db) = None
      \<and> length (filter (\<lambda>c. c_id c > last_loaded_id s) source) \<le> 50
    \<longrightarrow> fst (CouriersLoader_run source faults' (fst (CouriersLoader_run source faults db)))
          = fst (CouriersLoader_run source faults db))
   \<and> (RestaurantReportSettings_init
         (workflow_settings (get_setting rdb ''settlement_report_dds_to_cdm_workflow'')) = Inr rs
      \<and> (\<forall>r\<in>set reports. valid_date (report_date r) \<and> 1000 \<le> date_year (report_date r))
    \<longrightarrow> snd (SettlementReportLoader_run ops reports rdb) = None
      \<and> snd (SettlementReportLoader_run ops reports (fst (SettlementReportLoader_run ops reports rdb)))
          = None
      \<and> rows (dest (fst (SettlementReportLoader_run ops reports
                           (fst (SettlementReportLoader_run ops reports rdb)))))
          = rows (dest (fst (SettlementReportLoader_run ops reports rdb)))
      \<and> rows (srv_wf_settings (fst (SettlementReportLoader_run ops reports
                           (fst (SettlementReportLoader_run ops reports rdb)))))
          = rows (srv_wf_settings (fst (SettlementReportLoader_run ops reports rdb))))"
proof (intro conjI impI)
  assume "CourierSettings_init (workflow_settings (get_setting db ''couriers_stg_to_dds_workflow'')) = Inr s
      \<and> snd (CouriersLoader_run source faults db) = None
      \<and> length (filter (\<lambda>c. c_id c > last_loaded_id s) source) \<le> 50"
  then show "fst (CouriersLoader_run source faults' (fst (CouriersLoader_run source faults db)))
          = fst (CouriersLoader_run source faults db)"
    using couriers_second_run_changes_nothing [of db s source faults faults'] by blast
next
  assume a: "RestaurantReportSettings_init
         (workflow_settings (get_setting rdb ''settlement_report_dds_to_cdm_workflow'')) = Inr rs
      \<and> (\<forall>r\<in>set reports. valid_date (report_date r) \<and> 1000 \<le> date_year (report_date r))"
  then have s: "RestaurantReportSettings_init
         (workflow_settings (get_setting rdb ''settlement_report_dds_to_cdm_workflow'')) = Inr rs"
    and v: "\<forall>r\<in>set reports. valid_date (report_date r)"
    by blast+
  note r = report_second_run_keeps_rows [OF s v, of ops]
  from r show "snd (SettlementReportLoader_run ops reports rdb) = None" by blast
  from r show "snd (SettlementReportLoader_run ops reports
                  (fst (SettlementReportLoader_run ops reports rdb))) = None" by blast
  from r show "rows (dest (fst (SettlementReportLoader_run ops reports
                           (fst (SettlementReportLoader_run ops reports rdb)))))
          = rows (dest (fst (SettlementReportLoader_run ops reports rdb)))" by blast
  from r show "rows (srv_wf_settings (fst (SettlementReportLoader_run ops reports
                           (fst (SettlementReportLoader_run ops reports rdb)))))
          = rows (srv_wf_settings (fst (SettlementReportLoader_run ops reports rdb)))" by blast
qed

lemma sample_couriers_run_ok: "snd (CouriersLoader_run (couriers_upto 3) no_faults empty_pg) = None"
  by code_simp

lemma sample_couriers_drained:
  "length (filter (\<lambda>c. c_id c > last_loaded_id \<lparr>last_loaded_id = - 1\<rparr>) (couriers_upto 3)) \<le> 50"
  by code_simp

lemma sample_reports_valid:
  "\<forall>r\<in>set [report_on 12 ''r'' 500, report_on 11 ''r'' 300, report_on 12 ''q'' 700].
       valid_date (report_date r) \<and> 1000 \<le> date_year (report_date r)"
  by (simp add: report_on_def on_day_def valid_date_def valid_ymd_def days_in_month_def)

theorem second_run_witness:
  "fst (CouriersLoader_run (couriers_upto 3) no_faults
          (fst (CouriersLoader_run (couriers_upto 3) no_faults empty_pg)))
     = fst (CouriersLoader_run (couriers_upto 3) no_faults empty_pg)
   \<and> workflow_settings (get_setting (fst (CouriersLoader_run (couriers_upto 3) no_faults empty_pg))
        ''couriers_stg_to_dds_workflow'') = [(''last_loaded_id'', PyInt 3)]
   \<and> rows (dest (fst (SettlementReportLoader_run exact_ops
              [report_on 12 ''r'' 500, report_on 11 ''r'' 300, report_on 12 ''q'' 700]
              (fst (SettlementReportLoader_run exact_ops
                 [report_on 12 ''r'' 500, report_on 11 ''r'' 300, report_on 12 ''q'' 700] empty_pg)))))
     = rows (dest (fst (SettlementReportLoader_run exact_ops
                 [report_on 12 ''r'' 500, report_on 11 ''r'' 300, report_on 12 ''q'' 700] empty_pg)))
   \<and> rows (srv_wf_settings (fst (SettlementReportLoader_run exact_ops
              [report_on 12 ''r'' 500, report_on 11 ''r'' 300, report_on 12 ''q'' 700]
              (fst (SettlementReportLoader_run exact_ops
                 [report_on 12 ''r'' 500, report_on 11 ''r'' 300, report_on 12 ''q'' 700] empty_pg)))))
     = rows (srv_wf_settings (fst (SettlementReportLoader_run exact_ops
                 [report_on 12 ''r'' 500, report_on 11 ''r'' 300, report_on 12 ''q'' 700] empty_pg)))
   \<and> workflow_settings (get_setting (fst (SettlementReportLoader_run exact_ops
                 [report_on 12 ''r'' 500, report_on 11 ''r'' 300, report_on 12 ''q'' 700] empty_pg))
        ''settlement_report_dds_to_cdm_workflow'') = [(''last_loaded_date'', PyStr ''2022-01-12'')]"
proof -
  have c: "workflow_settings (get_setting (fst (CouriersLoader_run (couriers_upto 3) no_faults empty_pg))
        ''couriers_stg_to_dds_workflow'') = [(''last_loaded_id'', PyInt 3)]"
    by code_simp
  have d: "workflow_settings (get_setting (fst (SettlementReportLoader_run exact_ops
                 [report_on 12 ''r'' 500, report_on 11 ''r'' 300, report_on 12 ''q'' 700] empty_pg))
        ''settlement_report_dds_to_cdm_workflow'') = [(''last_loaded_date'', PyStr ''2022-01-12'')]"
    by code_simp
  from second_run_changes_nothing_when_drained
    [of "empty_pg" "\<lparr>last_loaded_id = - 1\<rparr>" "couriers_upto 3" no_faults no_faults
        "empty_pg" "\<lparr>last_loaded_date = date_min\<rparr>"
        "[report_on 12 ''r'' 500, report_on 11 ''r'' 300, report_on 12 ''q'' 700]" exact_ops]
    sample_couriers_run_ok sample_couriers_drained sample_reports_valid c d
  show ?thesis
    by (simp add: CourierSettings_init_Nil RestaurantReportSettings_init_Nil)
qed

text \<open>
  Claim C7 as it is written fails for a source that is larger than one batch: with 51
  staged couriers and nothing added in between, the first run loads 50 and stores the
  watermark 50, and the second run loads the courier 51 and stores the watermark 51.
\<close>

theorem second_run_counterexample:
  "snd (CouriersLoader_run (couriers_upto 51) no_faults empty_pg) = None
   \<and> workflow_settings (get_setting (fst (CouriersLoader_run (couriers_upto 51) no_faults empty_pg))
        ''couriers_stg_to_dds_workflow'') = [(''last_loaded_id'', PyInt 50)]
   \<and> workflow_settings
        (get_setting (fst (CouriersLoader_run (couriers_upto 51) no_faults
                        (fst (CouriersLoader_run (couriers_upto 51) no_faults empty_pg))))
        ''couriers_stg_to_dds_workflow'') = [(''last_loaded_id'', PyInt 51)]
   \<and> rows (dest (fst (CouriersLoader_run (couriers_upto 51) no_faults empty_pg))) ''0051'' = None
   \<and> rows (dest (fst (CouriersLoader_run (couriers_upto 51) no_faults
                        (fst (CouriersLoader_run (couriers_upto 51) no_faults empty_pg))))) ''0051''
       = Some (51, ''courier'')"
  by code_simp

end
